theory Spec2Isabelle
  imports Complex_Main
begin

section \<open>Floating-point values\<close>

text \<open>
  The program computes with IEEE doubles.  A finite double is modelled by the real number
  it denotes (no rounding, no overflow), and the three non-finite values are constructors
  of their own, so that every division by zero and every comparison with NaN of the source
  is a branch of the model.  The two zeros are one value: a quotient \<open>x / 0\<close> with
  \<open>x > 0\<close> is \<open>PInf\<close> whatever the sign of the zero.
\<close>

datatype fl = Fin real | PInf | NInf | NaN

fun fneg :: "fl \<Rightarrow> fl" where
  "fneg (Fin a) = Fin (- a)"
| "fneg PInf = NInf"
| "fneg NInf = PInf"
| "fneg NaN = NaN"

fun fadd :: "fl \<Rightarrow> fl \<Rightarrow> fl" where
  "fadd NaN _ = NaN"
| "fadd _ NaN = NaN"
| "fadd PInf NInf = NaN"
| "fadd NInf PInf = NaN"
| "fadd PInf _ = PInf"
| "fadd _ PInf = PInf"
| "fadd NInf _ = NInf"
| "fadd _ NInf = NInf"
| "fadd (Fin a) (Fin b) = Fin (a + b)"

definition fsub :: "fl \<Rightarrow> fl \<Rightarrow> fl" where
  "fsub a b = fadd a (fneg b)"

fun fmul :: "fl \<Rightarrow> fl \<Rightarrow> fl" where
  "fmul NaN _ = NaN"
| "fmul _ NaN = NaN"
| "fmul (Fin a) (Fin b) = Fin (a * b)"
| "fmul (Fin a) PInf = (if a = 0 then NaN else if 0 < a then PInf else NInf)"
| "fmul (Fin a) NInf = (if a = 0 then NaN else if 0 < a then NInf else PInf)"
| "fmul PInf (Fin b) = (if b = 0 then NaN else if 0 < b then PInf else NInf)"
| "fmul NInf (Fin b) = (if b = 0 then NaN else if 0 < b then NInf else PInf)"
| "fmul PInf PInf = PInf"
| "fmul PInf NInf = NInf"
| "fmul NInf PInf = NInf"
| "fmul NInf NInf = PInf"

fun fdiv :: "fl \<Rightarrow> fl \<Rightarrow> fl" where
  "fdiv NaN _ = NaN"
| "fdiv _ NaN = NaN"
| "fdiv (Fin a) (Fin b) =
     (if b = 0 then (if a = 0 then NaN else if 0 < a then PInf else NInf)
      else Fin (a / b))"
| "fdiv (Fin a) PInf = Fin 0"
| "fdiv (Fin a) NInf = Fin 0"
| "fdiv PInf (Fin b) = (if 0 \<le> b then PInf else NInf)"
| "fdiv NInf (Fin b) = (if 0 \<le> b then NInf else PInf)"
| "fdiv PInf PInf = NaN"
| "fdiv PInf NInf = NaN"
| "fdiv NInf PInf = NaN"
| "fdiv NInf NInf = NaN"

fun fabs :: "fl \<Rightarrow> fl" where
  "fabs (Fin a) = Fin \<bar>a\<bar>"
| "fabs PInf = PInf"
| "fabs NInf = PInf"
| "fabs NaN = NaN"

text \<open>Comparisons: every comparison with NaN is false, as in Python and pandas.\<close>

fun flt :: "fl \<Rightarrow> fl \<Rightarrow> bool" where
  "flt NaN _ = False"
| "flt _ NaN = False"
| "flt (Fin a) (Fin b) = (a < b)"
| "flt (Fin a) PInf = True"
| "flt (Fin a) NInf = False"
| "flt PInf _ = False"
| "flt NInf NInf = False"
| "flt NInf _ = True"

fun fle :: "fl \<Rightarrow> fl \<Rightarrow> bool" where
  "fle NaN _ = False"
| "fle _ NaN = False"
| "fle (Fin a) (Fin b) = (a \<le> b)"
| "fle (Fin a) PInf = True"
| "fle (Fin a) NInf = False"
| "fle PInf PInf = True"
| "fle PInf _ = False"
| "fle NInf _ = True"

definition fgt :: "fl \<Rightarrow> fl \<Rightarrow> bool" where
  "fgt a b = flt b a"

definition fge :: "fl \<Rightarrow> fl \<Rightarrow> bool" where
  "fge a b = fle b a"

section \<open>Errors\<close>

datatype error = IndexError | ValueError

section \<open>The backtest engine (algos/base_algorithm.py)\<close>

record engine =
  take_profit :: real
  stop_loss :: real
  commission :: real

datatype exit_reason = Take_profit | Stop_loss | Market_close

text \<open>\<open>BacktestEngine.calculate_exit_price\<close>: the pair (tp_price, sl_price).\<close>

definition calculate_exit_price :: "engine \<Rightarrow> real \<Rightarrow> bool \<Rightarrow> real \<times> real" where
  "calculate_exit_price e entry_price is_long =
     (if is_long
      then (entry_price * (1 + take_profit e), entry_price * (1 + stop_loss e))
      else (entry_price * (1 - take_profit e), entry_price * (1 - stop_loss e)))"

text \<open>
  The \<open>for i in range(entry_idx + 1, len(prices))\<close> loop of \<open>simulate_trade\<close>.
  The list argument is \<open>prices[i:]\<close>, and \<open>i\<close> the index of its head.  \<open>None\<close> is
  falling out of the loop.
\<close>

fun simulate_trade_loop ::
  "engine \<Rightarrow> bool \<Rightarrow> real \<Rightarrow> real \<Rightarrow> real list \<Rightarrow> nat \<Rightarrow> (nat \<times> fl \<times> exit_reason) option" where
  "simulate_trade_loop e is_long tp_price sl_price [] i = None"
| "simulate_trade_loop e is_long tp_price sl_price (current_price # rest) i =
     (if is_long then
        (if current_price \<ge> tp_price
           then Some (i, Fin (take_profit e - commission e * 2), Take_profit)
         else if current_price \<le> sl_price
           then Some (i, Fin (stop_loss e - commission e * 2), Stop_loss)
         else simulate_trade_loop e is_long tp_price sl_price rest (Suc i))
      else
        (if current_price \<le> tp_price
           then Some (i, Fin (take_profit e - commission e * 2), Take_profit)
         else if current_price \<ge> sl_price
           then Some (i, Fin (- stop_loss e - commission e * 2), Stop_loss)
         else simulate_trade_loop e is_long tp_price sl_price rest (Suc i)))"

text \<open>
  \<open>BacktestEngine.simulate_trade\<close>, returning (exit_index, profit, exit_reason).
  \<open>prices.iloc[entry_idx]\<close> raises IndexError out of range.
\<close>

definition simulate_trade ::
  "engine \<Rightarrow> real list \<Rightarrow> nat \<Rightarrow> bool \<Rightarrow> error + (nat \<times> fl \<times> exit_reason)" where
  "simulate_trade e prices entry_idx is_long =
     (if entry_idx \<ge> length prices then Inl IndexError
      else
        let entry_price = prices ! entry_idx;
            (tp_price, sl_price) = calculate_exit_price e entry_price is_long
        in case simulate_trade_loop e is_long tp_price sl_price
                  (drop (entry_idx + 1) prices) (entry_idx + 1) of
             Some r \<Rightarrow> Inr r
           | None \<Rightarrow>
               let final_profit = fdiv (Fin (last prices - entry_price)) (Fin entry_price);
                   final_profit = (if \<not> is_long then fneg final_profit else final_profit);
                   final_profit = fsub final_profit (Fin (commission e * 2))
               in Inr (length prices - 1, final_profit, Market_close))"

text \<open>Rows of the price DataFrame: the index (a timestamp) and the columns read.\<close>

record row =
  timestamp :: int
  price :: real
  low :: real

text \<open>\<open>current_trade\<close> while the position is open, and the finished trade.\<close>

record open_trade =
  entry_time :: int
  entry_price :: real
  is_long :: bool
  entry_idx :: nat

record trade = open_trade +
  exit_time :: int
  exit_price :: real
  profit_pct :: fl
  exit_reason :: exit_reason

text \<open>
  The \<open>while i < len(data)\<close> loop of \<open>BacktestEngine.backtest\<close>, on the state
  (\<open>i\<close>, \<open>current_trade\<close>, \<open>trades_list\<close>).  \<open>signals.iloc[i]\<close> is read on every
  pass and raises IndexError when the signal series is shorter than the data.
\<close>

function backtest_loop ::
  "engine \<Rightarrow> row list \<Rightarrow> int list \<Rightarrow> nat \<Rightarrow> open_trade option \<Rightarrow> trade list
     \<Rightarrow> error + (trade list \<times> open_trade option)" where
  "backtest_loop e data signals i current_trade trades_list =
     (if i < length data then
        (if i \<ge> length signals then Inl IndexError
         else
           (case current_trade of
              None \<Rightarrow>
                (if signals ! i = 1 then
                   backtest_loop e data signals (i + 1)
                     (Some \<lparr>entry_time = timestamp (data ! i), entry_price = price (data ! i),
                            is_long = True, entry_idx = i\<rparr>) trades_list
                 else if signals ! i = - 1 then
                   backtest_loop e data signals (i + 1)
                     (Some \<lparr>entry_time = timestamp (data ! i), entry_price = price (data ! i),
                            is_long = False, entry_idx = i\<rparr>) trades_list
                 else backtest_loop e data signals (i + 1) None trades_list)
            | Some ct \<Rightarrow>
                (case simulate_trade e (map price data) (entry_idx ct) (is_long ct) of
                   Inl err \<Rightarrow> Inl err
                 | Inr (exit_idx, profit, reason) \<Rightarrow>
                     backtest_loop e data signals (exit_idx + 1) None
                       (trades_list @
                          [\<lparr>entry_time = entry_time ct, entry_price = entry_price ct,
                            is_long = is_long ct, entry_idx = entry_idx ct,
                            exit_time = timestamp (data ! exit_idx),
                            exit_price = price (data ! exit_idx),
                            profit_pct = fmul profit (Fin 100),
                            exit_reason = reason\<rparr>]))))
      else Inr (trades_list, current_trade))"
  by pat_completeness auto

lemma simulate_trade_loop_ge:
  "simulate_trade_loop e l tp sl ps i = Some (j, pr, r) \<Longrightarrow> i \<le> j \<and> j < i + length ps"
  by (induction ps arbitrary: i) (fastforce split: if_splits)+

lemma simulate_trade_exit_bounds:
  assumes "simulate_trade e prices entry l = Inr (j, pr, r)"
  shows "entry \<le> j \<and> j < length prices \<and> entry < length prices"
proof -
  from assms have lt: "entry < length prices"
    by (auto simp: simulate_trade_def split: if_splits)
  obtain tp sl where ex: "calculate_exit_price e (prices ! entry) l = (tp, sl)"
    by (cases "calculate_exit_price e (prices ! entry) l") auto
  show ?thesis
  proof (cases "simulate_trade_loop e l tp sl (drop (entry + 1) prices) (entry + 1)")
    case None
    with assms lt ex show ?thesis
      by (auto simp: simulate_trade_def Let_def)
  next
    case (Some a)
    with assms lt ex have "a = (j, pr, r)"
      by (auto simp: simulate_trade_def Let_def)
    with Some have "entry + 1 \<le> j \<and> j < entry + 1 + length (drop (entry + 1) prices)"
      using simulate_trade_loop_ge by blast
    with lt show ?thesis by auto
  qed
qed

termination backtest_loop
proof (relation "measure (\<lambda>(e, data, signals, i, ct, ts).
          case ct of None \<Rightarrow> 2 * (length data - i)
                   | Some c \<Rightarrow> 2 * (length data - (entry_idx c + 1)) + 1)", goal_cases)
  case 1
  then show ?case by simp
next
  case (2 e data signals i current_trade trades_list)
  then show ?case by simp
next
  case (3 e data signals i current_trade trades_list)
  then show ?case by simp
next
  case (4 e data signals i current_trade trades_list)
  then show ?case by simp
next
  case (5 e data signals i current_trade trades_list ct r exit_idx rest profit reason)
  then have "entry_idx ct \<le> exit_idx"
    using simulate_trade_exit_bounds[of e "map price data" "entry_idx ct" "is_long ct"
            exit_idx profit reason]
    by simp
  with 5 show ?case by simp
qed

declare backtest_loop.simps [simp del]

text \<open>
  The reductions of pandas skip NaN: \<open>Series.sum()\<close> adds the values that are not NaN
  (0 for none), \<open>Series.mean()\<close> divides that sum by their number.
\<close>

definition pd_sum :: "fl list \<Rightarrow> fl" where
  "pd_sum xs = foldl fadd (Fin 0) (filter (\<lambda>x. x \<noteq> NaN) xs)"

definition pd_mean :: "fl list \<Rightarrow> fl" where
  "pd_mean xs = fdiv (pd_sum xs) (Fin (real (length (filter (\<lambda>x. x \<noteq> NaN) xs))))"

text \<open>
  The metrics dictionary.  \<open>max_drawdown\<close> and \<open>avg_trade_duration\<close>, which nothing
  below reads, are left out.
\<close>

record metrics =
  total_trades :: nat
  win_rate :: real
  avg_profit :: fl
  total_profit :: fl
  profit_factor :: fl
  long_trades :: nat
  short_trades :: nat
  take_profit_exits :: nat
  stop_loss_exits :: nat
  market_close_exits :: nat

definition calculate_performance_metrics :: "trade list \<Rightarrow> metrics" where
  "calculate_performance_metrics trades_df =
     (if length trades_df = 0 then
        \<lparr>total_trades = 0, win_rate = 0, avg_profit = Fin 0, total_profit = Fin 0,
         profit_factor = Fin 0, long_trades = 0, short_trades = 0,
         take_profit_exits = 0, stop_loss_exits = 0, market_close_exits = 0\<rparr>
      else
        let winning_trades = filter (\<lambda>t. fgt (profit_pct t) (Fin 0)) trades_df;
            losing_trades = filter (\<lambda>t. fle (profit_pct t) (Fin 0)) trades_df;
            total = pd_sum (map profit_pct trades_df);
            pf = (if length losing_trades > 0 \<and> pd_sum (map profit_pct losing_trades) \<noteq> Fin 0
                  then fdiv (fabs (pd_sum (map profit_pct winning_trades)))
                            (fabs (pd_sum (map profit_pct losing_trades)))
                  else PInf)
        in \<lparr>total_trades = length trades_df,
            win_rate = real (length winning_trades) / real (length trades_df) * 100,
            avg_profit = pd_mean (map profit_pct trades_df),
            total_profit = total,
            profit_factor = pf,
            long_trades = length (filter is_long trades_df),
            short_trades = length (filter (\<lambda>t. \<not> is_long t) trades_df),
            take_profit_exits = length (filter (\<lambda>t. exit_reason t = Take_profit) trades_df),
            stop_loss_exits = length (filter (\<lambda>t. exit_reason t = Stop_loss) trades_df),
            market_close_exits = length (filter (\<lambda>t. exit_reason t = Market_close) trades_df)\<rparr>)"

text \<open>
  The block after the loop of \<open>backtest\<close>: a trade still open is closed at the last
  price, its exit time the last index entry.
\<close>

definition close_at_end :: "engine \<Rightarrow> row list \<Rightarrow> open_trade \<Rightarrow> trade" where
  "close_at_end e data ct =
     (let final_price = price (last data);
          final_profit =
            (if is_long ct
             then fdiv (Fin (final_price - entry_price ct)) (Fin (entry_price ct))
             else fdiv (Fin (entry_price ct - final_price)) (Fin (entry_price ct)));
          final_profit = fsub final_profit (Fin (commission e * 2))
      in \<lparr>entry_time = entry_time ct, entry_price = entry_price ct,
          is_long = is_long ct, entry_idx = entry_idx ct,
          exit_time = timestamp (last data),
          exit_price = final_price,
          profit_pct = fmul final_profit (Fin 100),
          exit_reason = Market_close\<rparr>)"

text \<open>
  \<open>BacktestEngine.backtest\<close>.  The algorithm is the abstract \<open>generate_signals\<close> of
  \<open>BaseAlgorithm\<close>: any function from the data to a signal series, or to an exception.
\<close>

definition backtest ::
  "engine \<Rightarrow> (row list \<Rightarrow> error + int list) \<Rightarrow> row list \<Rightarrow> error + (trade list \<times> metrics)" where
  "backtest e generate_signals data =
     (case generate_signals data of
        Inl err \<Rightarrow> Inl err
      | Inr signals \<Rightarrow>
          (case backtest_loop e data signals 1 None [] of
             Inl err \<Rightarrow> Inl err
           | Inr (trades_list, current_trade) \<Rightarrow>
               let trades_df = (case current_trade of
                                  None \<Rightarrow> trades_list
                                | Some ct \<Rightarrow> trades_list @ [close_at_end e data ct])
               in Inr (trades_df, calculate_performance_metrics trades_df)))"

section \<open>The indicator (calculate_rsi of both algorithm classes)\<close>

text \<open>
  The constructor arguments shared by \<open>RSIAlgorithm\<close>, \<open>RSI1MinDoubleConfirmAlgorithm\<close>
  and, under the name \<open>rsi_period\<close> for the first, the panel.
\<close>

record algo =
  period :: nat
  oversold_threshold :: real
  overbought_threshold :: real

text \<open>\<open>prices.diff()\<close>: NaN at the first index, then the difference to the previous price.\<close>

fun diff_from :: "real \<Rightarrow> real list \<Rightarrow> fl list" where
  "diff_from prev [] = []"
| "diff_from prev (p # ps) = Fin (p - prev) # diff_from p ps"

fun pd_diff :: "real list \<Rightarrow> fl list" where
  "pd_diff [] = []"
| "pd_diff (p # ps) = NaN # diff_from p ps"

text \<open>
  \<open>ewm(span, adjust=False).mean()\<close>: \<open>y\<^sub>0 = x\<^sub>0\<close> and
  \<open>y\<^sub>t = (1 - \<alpha>) y\<^sub>t\<^sub>-\<^sub>1 + \<alpha> x\<^sub>t\<close> with \<open>\<alpha> = 2 / (span + 1)\<close>.
\<close>

fun ewm_from :: "real \<Rightarrow> fl \<Rightarrow> fl list \<Rightarrow> fl list" where
  "ewm_from alpha y [] = []"
| "ewm_from alpha y (x # xs) =
     (let y' = fadd (fmul (Fin (1 - alpha)) y) (fmul (Fin alpha) x)
      in y' # ewm_from alpha y' xs)"

fun ewm_mean :: "nat \<Rightarrow> fl list \<Rightarrow> fl list" where
  "ewm_mean spn [] = []"
| "ewm_mean spn (x # xs) = x # ewm_from (2 / (real spn + 1)) x xs"

text \<open>
  \<open>calculate_rsi\<close>.  pandas refuses a span below 1 with a ValueError.  Where no loss has
  been seen the source divides by a zero, which pandas has as \<open>-0.0\<close> there; the quotient
  is infinite of either sign and the oscillator is 100 for both.
\<close>

definition calculate_rsi :: "nat \<Rightarrow> real list \<Rightarrow> error + fl list" where
  "calculate_rsi spn prices =
     (if spn < 1 then Inl ValueError
      else
        let delta = pd_diff prices;
            gain = map (\<lambda>d. if fgt d (Fin 0) then d else Fin 0) delta;
            loss = map (\<lambda>d. fneg (if flt d (Fin 0) then d else Fin 0)) delta;
            avg_gain = ewm_mean spn gain;
            avg_loss = ewm_mean spn loss;
            rs = map2 fdiv avg_gain avg_loss;
            rsi = map (\<lambda>r. fsub (Fin 100) (fdiv (Fin 100) (fadd (Fin 1) r))) rs
        in Inr rsi)"

text \<open>\<open>Series.shift(1)\<close>: NaN first, every value one place later, the last one dropped.\<close>

definition shift1 :: "fl list \<Rightarrow> fl list" where
  "shift1 xs = (if xs = [] then [] else NaN # butlast xs)"

section \<open>The threshold-crossing generator (algos/rsi_algorithm.py)\<close>

text \<open>
  \<open>RSIAlgorithm.generate_signals\<close>.  The two masked assignments are made in the order of
  the source: where both masks hold the later one, \<open>-1\<close>, stays.
\<close>

definition buy_condition :: "algo \<Rightarrow> fl \<Rightarrow> fl \<Rightarrow> bool" where
  "buy_condition a r prev \<longleftrightarrow>
     fgt r (Fin (oversold_threshold a)) \<and> fle prev (Fin (oversold_threshold a))"

definition sell_condition :: "algo \<Rightarrow> fl \<Rightarrow> fl \<Rightarrow> bool" where
  "sell_condition a r prev \<longleftrightarrow>
     flt r (Fin (overbought_threshold a)) \<and> fge prev (Fin (overbought_threshold a))"

definition rsi_generate_signals :: "algo \<Rightarrow> row list \<Rightarrow> error + int list" where
  "rsi_generate_signals a data =
     (case calculate_rsi (period a) (map price data) of
        Inl err \<Rightarrow> Inl err
      | Inr rsi \<Rightarrow>
          Inr (map2 (\<lambda>r prev. if sell_condition a r prev then - 1
                               else if buy_condition a r prev then 1 else 0)
                 rsi (shift1 rsi)))"

section \<open>The double-confirm generator (algos/rsi_1min_double_confirm_algorithm.py)\<close>

text \<open>\<open>Series.max()\<close> skips NaN and is NaN when nothing is left.\<close>

definition fmax :: "fl \<Rightarrow> fl \<Rightarrow> fl" where
  "fmax a b = (if flt a b then b else a)"

definition pd_max :: "fl list \<Rightarrow> fl" where
  "pd_max xs = (case filter (\<lambda>x. x \<noteq> NaN) xs of [] \<Rightarrow> NaN | y # ys \<Rightarrow> foldl fmax y ys)"

text \<open>The slice \<open>xs[max(0, i - n):i]\<close>.\<close>

definition window :: "nat \<Rightarrow> nat \<Rightarrow> 'a list \<Rightarrow> 'a list" where
  "window n i xs = drop (i - n) (take i xs)"

text \<open>The body of the \<open>rsi_topped\<close> loop at index \<open>i\<close>; the loop starts at 2.\<close>

definition rsi_topped_at :: "algo \<Rightarrow> fl list \<Rightarrow> nat \<Rightarrow> bool" where
  "rsi_topped_at a rsi i =
     (if i < 2 \<or> i \<ge> length rsi then False
      else
        let recent_high = pd_max (window 10 i rsi)
        in if fge recent_high (Fin (overbought_threshold a)) then True
           else if fgt (rsi ! (i - 1)) (rsi ! (i - 2)) \<and> fgt (rsi ! (i - 1)) (rsi ! i)
             then (if fgt (rsi ! (i - 1)) (Fin 60) then True else False)
           else False)"

text \<open>\<open>support_levels\<close>: NaN below index 10, then the lowest of the ten prices before.\<close>

definition support_levels_at :: "real list \<Rightarrow> nat \<Rightarrow> fl" where
  "support_levels_at prices i =
     (if 10 \<le> i \<and> i < length prices then Fin (min_list (window 10 i prices)) else NaN)"

definition short_condition :: "algo \<Rightarrow> fl list \<Rightarrow> real list \<Rightarrow> nat \<Rightarrow> bool" where
  "short_condition a rsi prices i \<longleftrightarrow>
     rsi_topped_at a rsi i \<and> flt (rsi ! i) (Fin 50) \<and> fge (rsi ! (i - 1)) (Fin 50) \<and>
     flt (Fin (prices ! i)) (support_levels_at prices i)"

definition cover_condition :: "algo \<Rightarrow> fl list \<Rightarrow> nat \<Rightarrow> bool" where
  "cover_condition a rsi i \<longleftrightarrow>
     fle (rsi ! i) (Fin (oversold_threshold a)) \<and>
     fgt (shift1 rsi ! i) (Fin (oversold_threshold a))"

text \<open>
  \<open>RSI1MinDoubleConfirmAlgorithm.generate_signals\<close>: the short loop runs over
  \<open>range(11, len(signals))\<close>, the cover mask is assigned after it.
\<close>

definition dc_signal_at :: "algo \<Rightarrow> fl list \<Rightarrow> real list \<Rightarrow> nat \<Rightarrow> int" where
  "dc_signal_at a rsi prices i =
     (if cover_condition a rsi i then 1
      else if 11 \<le> i \<and> short_condition a rsi prices i then - 1
      else 0)"

definition dc_generate_signals :: "algo \<Rightarrow> row list \<Rightarrow> error + int list" where
  "dc_generate_signals a data =
     (case calculate_rsi (period a) (map price data) of
        Inl err \<Rightarrow> Inl err
      | Inr rsi \<Rightarrow>
          Inr (map (dc_signal_at a rsi (map price data)) [0..<length data]))"

section \<open>The streaming state machine (paxg_panel.py)\<close>

text \<open>
  The fields of \<open>PAXGPanel\<close> the double-confirm logic reads and writes; \<open>period\<close> is
  \<open>rsi_period\<close> there.
\<close>

record panel = algo +
  last_rsi_values :: "fl list"
  rsi_topped :: bool
  support_level :: "real option"

text \<open>
  The builtin \<open>max\<close> of Python keeps the first item and replaces it by a later one that
  compares greater: a NaN in front stays.
\<close>

fun py_max_from :: "fl \<Rightarrow> fl list \<Rightarrow> fl" where
  "py_max_from m [] = m"
| "py_max_from m (x # xs) = py_max_from (if fgt x m then x else m) xs"

fun py_max :: "fl list \<Rightarrow> fl" where
  "py_max [] = NaN"
| "py_max (x # xs) = py_max_from x xs"

text \<open>The slice \<open>xs[-n:]\<close> and the item \<open>xs[-k]\<close> (read only where it exists).\<close>

definition last_n :: "nat \<Rightarrow> 'a list \<Rightarrow> 'a list" where
  "last_n n xs = drop (length xs - n) xs"

definition from_end :: "'a list \<Rightarrow> nat \<Rightarrow> 'a" where
  "from_end xs k = xs ! (length xs - k)"

text \<open>\<open>PAXGPanel.update_rsi_state\<close>; \<open>df\<close> is the candles seen, the newest last.\<close>

definition update_rsi_state :: "panel \<Rightarrow> fl \<Rightarrow> row list \<Rightarrow> panel" where
  "update_rsi_state p current_rsi df =
     (let vals = last_rsi_values p @ [current_rsi];
          vals = (if length vals > 10 then tl vals else vals);
          topped =
            (if length vals \<ge> 3 then
               (let recent_high = py_max (last_n 10 vals)
                in if fge recent_high (Fin (overbought_threshold p)) then True
                   else if fgt (from_end vals 2) (from_end vals 3) \<and>
                           fgt (from_end vals 2) (from_end vals 1) \<and>
                           fgt (from_end vals 2) (Fin 60) then True
                   else rsi_topped p)
             else rsi_topped p);
          support =
            (if length df \<ge> 10 then Some (min_list (map low (last_n 10 df)))
             else support_level p)
      in p\<lparr>last_rsi_values := vals, rsi_topped := topped, support_level := support\<rparr>)"

text \<open>\<open>PAXGPanel.check_short_signal\<close> and \<open>PAXGPanel.check_cover_signal\<close>.\<close>

definition check_short_signal :: "panel \<Rightarrow> fl \<Rightarrow> real \<Rightarrow> bool" where
  "check_short_signal p current_rsi current_price =
     (case support_level p of
        None \<Rightarrow> False
      | Some support \<Rightarrow>
          if \<not> rsi_topped p then False
          else
            let rsi_crossed_below_50 =
                  (if length (last_rsi_values p) \<ge> 2
                   then flt (from_end (last_rsi_values p) 1) (Fin 50) \<and>
                        fge (from_end (last_rsi_values p) 2) (Fin 50)
                   else flt current_rsi (Fin 50));
                price_broke_support = (current_price < support)
            in rsi_crossed_below_50 \<and> price_broke_support)"

definition check_cover_signal :: "panel \<Rightarrow> fl \<Rightarrow> bool" where
  "check_cover_signal p current_rsi =
     (if length (last_rsi_values p) \<ge> 2
      then fle current_rsi (Fin (oversold_threshold p)) \<and>
           fgt (from_end (last_rsi_values p) 2) (Fin (oversold_threshold p))
      else fle current_rsi (Fin (oversold_threshold p)))"

text \<open>
  The signal the panel shows (\<open>draw_bot_tab\<close>, "Determine current signal"): the short
  check first, then the cover check.
\<close>

definition current_signal :: "panel \<Rightarrow> fl \<Rightarrow> real \<Rightarrow> int" where
  "current_signal p current_rsi current_price =
     (if check_short_signal p current_rsi current_price then - 1
      else if check_cover_signal p current_rsi then 1
      else 0)"

text \<open>The state of a new session (\<open>__init__\<close>).\<close>

definition init_panel :: "algo \<Rightarrow> panel" where
  "init_panel a =
     \<lparr>period = period a, oversold_threshold = oversold_threshold a,
      overbought_threshold = overbought_threshold a,
      last_rsi_values = [], rsi_topped = False, support_level = None\<rparr>"

text \<open>
  Driving the machine one point at a time: the state after the first \<open>n\<close> points, each
  point the oscillator value at that index and the candles up to it.
\<close>

fun feed :: "panel \<Rightarrow> fl list \<Rightarrow> row list \<Rightarrow> nat \<Rightarrow> panel" where
  "feed p rsi data 0 = p"
| "feed p rsi data (Suc n) = update_rsi_state (feed p rsi data n) (rsi ! n) (take (Suc n) data)"

section \<open>The optimizer (helpers/start_backtesting.py)\<close>

text \<open>
  The constants of \<open>settings\<close> that \<open>ParameterOptimizer\<close> reads
  (\<open>RSI_PARAMS\<close>, \<open>COMMISSION_RATE\<close>, \<open>MIN_TRADES_THRESHOLD\<close>) are not defined in the
  settings module at hand; they are parameters here.
\<close>

record settings =
  rsi_params_take_profit :: "real list"
  rsi_params_stop_loss :: "real list"
  commission_rate :: real
  min_trades_threshold :: nat

text \<open>
  One parameter dictionary: period, oversold_threshold, overbought_threshold,
  take_profit, stop_loss, in the order of its keys.
\<close>

type_synonym params = "nat \<times> real \<times> real \<times> real \<times> real"

text \<open>
  \<open>get_parameter_combinations\<close>.  Of the names its chain admits only \<open>RSI\<close> is known to
  \<open>AlgorithmFactory\<close>; every other name ends in a ValueError.  The ranges of the
  algorithm are those of \<open>RSIAlgorithm.get_parameter_ranges\<close>.
\<close>

definition get_parameter_combinations :: "settings \<Rightarrow> string \<Rightarrow> error + params list" where
  "get_parameter_combinations st algorithm_name =
     (if algorithm_name = ''RSI'' then
        Inr (concat (map (\<lambda>per. concat (map (\<lambda>os. concat (map (\<lambda>ob.
               concat (map (\<lambda>tp. map (\<lambda>sl. (per, os, ob, tp, sl))
                  (rsi_params_stop_loss st)) (rsi_params_take_profit st)))
               [65, 70, 75, 80])) [20, 25, 30, 35])) [10, 12, 14, 16, 18, 20]))
      else Inl ValueError)"

record best_result =
  best_total_profit :: fl
  parameters :: "params option"
  best_metrics :: "metrics option"
  best_trades_df :: "trade list option"

text \<open>
  The loop of \<open>optimize\<close> on the state (\<open>self.results\<close>, \<open>best_result\<close>).  \<open>run\<close> is the
  body of the \<open>try\<close>: an exception there skips the combination.
\<close>

fun optimize_loop ::
  "(params \<Rightarrow> error + (trade list \<times> metrics)) \<Rightarrow> nat \<Rightarrow> params list
     \<Rightarrow> (params \<times> metrics) list \<times> best_result \<Rightarrow> (params \<times> metrics) list \<times> best_result" where
  "optimize_loop run min_trades [] state = state"
| "optimize_loop run min_trades (ps # rest) (results, best) =
     (case run ps of
        Inl err \<Rightarrow> optimize_loop run min_trades rest (results, best)
      | Inr (trades, m) \<Rightarrow>
          optimize_loop run min_trades rest
            (results @ [(ps, m)],
             if fgt (total_profit m) (best_total_profit best) \<and> total_trades m \<ge> min_trades
             then \<lparr>best_total_profit = total_profit m, parameters = Some ps,
                   best_metrics = Some m, best_trades_df = Some trades\<rparr>
             else best))"

text \<open>The body of the \<open>try\<close> for the one algorithm the factory can build here.\<close>

definition run_combination :: "settings \<Rightarrow> row list \<Rightarrow> params \<Rightarrow> error + (trade list \<times> metrics)" where
  "run_combination st data ps =
     (case ps of (per, os, ob, tp, sl) \<Rightarrow>
        backtest \<lparr>take_profit = tp, stop_loss = sl, commission = commission_rate st\<rparr>
          (rsi_generate_signals \<lparr>period = per, oversold_threshold = os, overbought_threshold = ob\<rparr>)
          data)"

definition initial_best :: best_result where
  "initial_best =
     \<lparr>best_total_profit = NInf, parameters = None, best_metrics = None, best_trades_df = None\<rparr>"

text \<open>\<open>ParameterOptimizer.optimize\<close>: the results recorded and the best result returned.\<close>

definition optimize ::
  "settings \<Rightarrow> string \<Rightarrow> row list \<Rightarrow> error + ((params \<times> metrics) list \<times> best_result)" where
  "optimize st algorithm_name data =
     (case get_parameter_combinations st algorithm_name of
        Inl err \<Rightarrow> Inl err
      | Inr combinations \<Rightarrow>
          Inr (optimize_loop (run_combination st data) (min_trades_threshold st)
                 combinations ([], initial_best)))"

section \<open>Predicates of the statements\<close>

text \<open>
  The two bracket tests of \<open>simulate_trade\<close> as predicates of a sample price: the
  take-profit level and the stop-loss level of a trade entered at \<open>entry\<close>.
\<close>

definition tp_reached :: "engine \<Rightarrow> real \<Rightarrow> bool \<Rightarrow> real \<Rightarrow> bool" where
  "tp_reached e entry l p =
     (if l then p \<ge> fst (calculate_exit_price e entry l)
      else p \<le> fst (calculate_exit_price e entry l))"

definition sl_reached :: "engine \<Rightarrow> real \<Rightarrow> bool \<Rightarrow> real \<Rightarrow> bool" where
  "sl_reached e entry l p =
     (if l then p \<le> snd (calculate_exit_price e entry l)
      else p \<ge> snd (calculate_exit_price e entry l))"

text \<open>
  What \<open>optimize\<close> has in \<open>self.results\<close> at the end, and what it means for a best result
  to be one of the combinations that reached the minimum number of trades.
\<close>

definition recorded :: "(params \<Rightarrow> error + (trade list \<times> metrics)) \<Rightarrow> params list \<Rightarrow> (params \<times> metrics) list" where
  "recorded run combos =
     concat (map (\<lambda>ps. case run ps of Inl err \<Rightarrow> [] | Inr (trades, m) \<Rightarrow> [(ps, m)]) combos)"

definition selected_from ::
  "(params \<Rightarrow> error + (trade list \<times> metrics)) \<Rightarrow> nat \<Rightarrow> params list \<Rightarrow> best_result \<Rightarrow> bool" where
  "selected_from run min_trades combos b \<longleftrightarrow>
     (\<exists>ps\<in>set combos. \<exists>trades m. run ps = Inr (trades, m) \<and> total_trades m \<ge> min_trades \<and>
        b = \<lparr>best_total_profit = total_profit m, parameters = Some ps,
             best_metrics = Some m, best_trades_df = Some trades\<rparr>)"

text \<open>
  For the proofs about the indicator: a finite value that is not negative, the oscillator
  of one pair of averages, and one step of the moving average.
\<close>

definition nonneg :: "fl \<Rightarrow> bool" where
  "nonneg x \<longleftrightarrow> (\<exists>v\<ge>0. x = Fin v)"

definition rsi_of :: "fl \<Rightarrow> fl \<Rightarrow> fl" where
  "rsi_of g l = fsub (Fin 100) (fdiv (Fin 100) (fadd (Fin 1) (fdiv g l)))"

definition ewm_step :: "real \<Rightarrow> fl \<Rightarrow> fl \<Rightarrow> fl" where
  "ewm_step alpha y x = fadd (fmul (Fin (1 - alpha)) y) (fmul (Fin alpha) x)"

text \<open>
  The invariant of the loop of \<open>backtest\<close>: the finished trades are in order, each ends
  after it begins, each ended at a row before \<open>index_bound\<close> (the index of the loop, or
  the entry of the open trade), and an open trade was entered at the row before the index.
\<close>

definition index_bound :: "nat \<Rightarrow> open_trade option \<Rightarrow> nat" where
  "index_bound i cur = (case cur of None \<Rightarrow> i | Some ct \<Rightarrow> entry_idx ct)"

definition loop_inv :: "row list \<Rightarrow> nat \<Rightarrow> open_trade option \<Rightarrow> trade list \<Rightarrow> bool" where
  "loop_inv data i cur ts \<longleftrightarrow>
     sorted_wrt (\<lambda>t u. exit_time t < entry_time u) ts \<and>
     (\<forall>t\<in>set ts. entry_time t < exit_time t) \<and>
     (\<forall>t\<in>set ts. \<exists>x. x < index_bound i cur \<and> x < length data \<and>
                     exit_time t = timestamp (data ! x)) \<and>
     (\<forall>ct. cur = Some ct \<longrightarrow>
        i = entry_idx ct + 1 \<and> entry_idx ct < length data \<and>
        entry_time ct = timestamp (data ! entry_idx ct))"

section \<open>Candles of the examples\<close>

text \<open>One row per price, the index as timestamp, the low equal to the price.\<close>

definition rows :: "real list \<Rightarrow> row list" where
  "rows ps = map (\<lambda>(i, p). \<lparr>timestamp = int i, price = p, low = p\<rparr>) (enumerate 0 ps)"

lemma price_rows_from:
  "map (price \<circ> (\<lambda>(i, p). \<lparr>timestamp = int i, price = p, low = p\<rparr>)) (enumerate n ps) = ps"
  by (induction ps arbitrary: n) auto

lemma price_rows: "map price (rows ps) = ps"
  by (simp add: rows_def price_rows_from)

lemma length_rows: "length (rows ps) = length ps"
  by (simp add: rows_def)

section \<open>Properties of the backtest engine\<close>

lemma simulate_trade_loop_tp_profit:
  "simulate_trade_loop e l tp sl ps i = Some (j, pr, Take_profit)
     \<Longrightarrow> pr = Fin (take_profit e - commission e * 2)"
  by (induction ps arbitrary: i) (auto split: if_splits)

lemma simulate_trade_tp_profit:
  assumes "simulate_trade e prices entry l = Inr (j, pr, Take_profit)"
  shows "pr = Fin (take_profit e - commission e * 2)"
proof -
  obtain tp sl where ex: "calculate_exit_price e (prices ! entry) l = (tp, sl)"
    by (cases "calculate_exit_price e (prices ! entry) l") auto
  from assms ex show ?thesis
    by (auto simp: simulate_trade_def Let_def split: if_splits option.splits
             dest: simulate_trade_loop_tp_profit)
qed

lemma backtest_loop_tp_profit:
  assumes "backtest_loop e data signals i cur ts = Inr (ts', cur')"
    and "\<forall>t\<in>set ts. exit_reason t = Take_profit \<longrightarrow>
           profit_pct t = Fin ((take_profit e - commission e * 2) * 100)"
  shows "\<forall>t\<in>set ts'. exit_reason t = Take_profit \<longrightarrow>
           profit_pct t = Fin ((take_profit e - commission e * 2) * 100)"
  using assms
proof (induction e data signals i cur ts rule: backtest_loop.induct)
  case (1 e data signals i current_trade trades_list)
  show ?case
  proof (cases "i < length data \<and> i < length signals")
    case False
    with "1.prems" show ?thesis
      by (auto simp: backtest_loop.simps[of e data signals i] split: if_splits)
  next
    case True
    show ?thesis
    proof (cases current_trade)
      case None
      with True "1.prems" "1.IH"(1,2,3) show ?thesis
        by (simp add: backtest_loop.simps[of e data signals i] split: if_splits)
    next
      case (Some ct)
      show ?thesis
      proof (cases "simulate_trade e (map price data) (entry_idx ct) (is_long ct)")
        case (Inl a)
        with True Some "1.prems" show ?thesis
          by (simp add: backtest_loop.simps[of e data signals i])
      next
        case (Inr r)
        obtain j pr rs where r: "r = (j, pr, rs)" by (cases r) auto
        have pr: "rs = Take_profit \<Longrightarrow> pr = Fin (take_profit e - commission e * 2)"
          using Inr r simulate_trade_tp_profit by blast
        from True Some Inr r "1.prems"(1)
        have run: "backtest_loop e data signals (j + 1) None
                (trades_list @
                   [\<lparr>entry_time = entry_time ct, entry_price = entry_price ct,
                     is_long = is_long ct, entry_idx = entry_idx ct,
                     exit_time = timestamp (data ! j),
                     exit_price = price (data ! j),
                     profit_pct = fmul pr (Fin 100),
                     exit_reason = rs\<rparr>]) = Inr (ts', cur')"
          by (simp add: backtest_loop.simps[of e data signals i])
        show ?thesis
          using "1.IH"(4)[OF _ _ Some Inr r[symmetric] _ run] True "1.prems"(2) pr
          by auto
      qed
    qed
  qed
qed

lemma simulate_trade_loop_first_tp:
  assumes "\<forall>k<n. \<not> tp_reached e entry l (ps ! k) \<and> \<not> sl_reached e entry l (ps ! k)"
    and "n < length ps" and "tp_reached e entry l (ps ! n)"
    and "calculate_exit_price e entry l = (tp, sl)"
  shows "simulate_trade_loop e l tp sl ps i = Some (i + n, Fin (take_profit e - commission e * 2), Take_profit)"
  using assms
proof (induction ps arbitrary: i n)
  case Nil
  then show ?case by simp
next
  case (Cons p ps)
  show ?case
  proof (cases n)
    case 0
    with Cons.prems show ?thesis
      by (cases l) (simp_all add: tp_reached_def)
  next
    case (Suc m)
    from Cons.prems Suc have h0: "\<not> tp_reached e entry l p \<and> \<not> sl_reached e entry l p"
      by (metis nth_Cons_0 zero_less_Suc)
    have "\<forall>k<m. \<not> tp_reached e entry l (ps ! k) \<and> \<not> sl_reached e entry l (ps ! k)"
      using Cons.prems(1) Suc by (metis Suc_less_eq nth_Cons_Suc)
    moreover have "m < length ps" "tp_reached e entry l (ps ! m)"
      using Cons.prems Suc by auto
    ultimately have "simulate_trade_loop e l tp sl ps (Suc i) =
        Some (Suc i + m, Fin (take_profit e - commission e * 2), Take_profit)"
      using Cons.IH Cons.prems(4) by blast
    with h0 Cons.prems(4) Suc show ?thesis
      by (cases l) (simp_all add: tp_reached_def sl_reached_def)
  qed
qed

text \<open>
  C4.  Every trade of a backtest that was closed by the take-profit bracket has
  \<open>profit_pct = (take_profit - 2 * commission) * 100\<close>, whatever the prices on the way and
  at the exit sample; and \<open>simulate_trade\<close> leaves at the first sample after the entry
  that reaches the take-profit level, by take-profit, also when that sample reaches the
  stop-loss level as well: the take-profit test comes first.
\<close>

theorem take_profit_exit:
  "(backtest e generate_signals data = Inr (trades, m) \<and> t \<in> set trades \<and>
      exit_reason t = Take_profit
      \<longrightarrow> profit_pct t = Fin ((take_profit e - commission e * 2) * 100)) \<and>
   (entry < j \<and> j < length prices \<and>
      (\<forall>k. entry < k \<and> k < j \<longrightarrow>
         \<not> tp_reached e (prices ! entry) l (prices ! k) \<and>
         \<not> sl_reached e (prices ! entry) l (prices ! k)) \<and>
      tp_reached e (prices ! entry) l (prices ! j)
      \<longrightarrow> simulate_trade e prices entry l =
            Inr (j, Fin (take_profit e - commission e * 2), Take_profit))"
proof (intro conjI impI)
  assume a: "backtest e generate_signals data = Inr (trades, m) \<and> t \<in> set trades \<and>
      exit_reason t = Take_profit"
  then obtain signals ts cur where
    loop: "backtest_loop e data signals 1 None [] = Inr (ts, cur)" and
    tr: "trades = (case cur of None \<Rightarrow> ts | Some ct \<Rightarrow> ts @ [close_at_end e data ct])"
    by (auto simp: backtest_def Let_def split: sum.splits)
  have "\<forall>t\<in>set ts. exit_reason t = Take_profit \<longrightarrow>
           profit_pct t = Fin ((take_profit e - commission e * 2) * 100)"
    using backtest_loop_tp_profit[OF loop] by simp
  moreover have "exit_reason (close_at_end e data ct) \<noteq> Take_profit" for ct
    by (simp add: close_at_end_def Let_def)
  ultimately show "profit_pct t = Fin ((take_profit e - commission e * 2) * 100)"
    using a tr by (auto split: option.splits)
next
  assume a: "entry < j \<and> j < length prices \<and>
      (\<forall>k. entry < k \<and> k < j \<longrightarrow>
         \<not> tp_reached e (prices ! entry) l (prices ! k) \<and>
         \<not> sl_reached e (prices ! entry) l (prices ! k)) \<and>
      tp_reached e (prices ! entry) l (prices ! j)"
  obtain tp sl where ex: "calculate_exit_price e (prices ! entry) l = (tp, sl)"
    by (cases "calculate_exit_price e (prices ! entry) l") auto
  let ?ps = "drop (entry + 1) prices"
  let ?n = "j - (entry + 1)"
  have 1: "\<forall>k<?n. \<not> tp_reached e (prices ! entry) l (?ps ! k) \<and>
                  \<not> sl_reached e (prices ! entry) l (?ps ! k)"
    using a by auto
  have 2: "?n < length ?ps" using a by auto
  have 3: "tp_reached e (prices ! entry) l (?ps ! ?n)" using a by auto
  have "simulate_trade_loop e l tp sl ?ps (entry + 1) =
          Some (entry + 1 + ?n, Fin (take_profit e - commission e * 2), Take_profit)"
    using simulate_trade_loop_first_tp[OF 1 2 3 ex] .
  moreover have "entry + 1 + ?n = j" using a by auto
  ultimately show "simulate_trade e prices entry l =
            Inr (j, Fin (take_profit e - commission e * 2), Take_profit)"
    using a ex by (simp add: simulate_trade_def)
qed

text \<open>
  The theorem at work: scenario D of the specification (entry at 100, long, a rise to 101),
  and a sample that reaches both levels of a bracket whose stop-loss lies above its
  take-profit.
\<close>

theorem take_profit_exit_witness:
  "backtest \<lparr>take_profit = 1/100, stop_loss = - (5/1000), commission = 1/1000\<rparr>
     (\<lambda>d. Inr [0, 1, 0, 0])
     [\<lparr>timestamp = 0, price = 100, low = 100\<rparr>, \<lparr>timestamp = 1, price = 100, low = 100\<rparr>,
      \<lparr>timestamp = 2, price = 101, low = 101\<rparr>, \<lparr>timestamp = 3, price = 497/5, low = 497/5\<rparr>]
   = Inr ([\<lparr>entry_time = 1, entry_price = 100, is_long = True, entry_idx = 1,
            exit_time = 2, exit_price = 101, profit_pct = Fin (4 / 5),
            exit_reason = Take_profit\<rparr>],
          \<lparr>total_trades = 1, win_rate = 100, avg_profit = Fin (4 / 5),
           total_profit = Fin (4 / 5), profit_factor = PInf, long_trades = 1,
           short_trades = 0, take_profit_exits = 1, stop_loss_exits = 0,
           market_close_exits = 0\<rparr>) \<and>
   Fin (4 / 5) = Fin ((1/100 - 1/1000 * 2) * 100) \<and>
   tp_reached \<lparr>take_profit = 1/100, stop_loss = 1/50, commission = 1/1000\<rparr> 100 True (203/2) \<and>
   sl_reached \<lparr>take_profit = 1/100, stop_loss = 1/50, commission = 1/1000\<rparr> 100 True (203/2) \<and>
   simulate_trade \<lparr>take_profit = 1/100, stop_loss = 1/50, commission = 1/1000\<rparr>
     [100, 203/2] 0 True = Inr (1, Fin (1/125), Take_profit)"
proof -
  let ?e = "\<lparr>take_profit = 1/100, stop_loss = - (5/1000), commission = 1/1000\<rparr>"
  let ?g = "\<lambda>d::row list. Inr [0, 1, 0, 0] :: error + int list"
  let ?d = "[\<lparr>timestamp = 0, price = 100, low = 100\<rparr>, \<lparr>timestamp = 1, price = 100, low = 100\<rparr>,
      \<lparr>timestamp = 2, price = 101, low = 101\<rparr>, \<lparr>timestamp = 3, price = 497/5, low = 497/5\<rparr>]"
  let ?t = "\<lparr>entry_time = 1, entry_price = 100, is_long = True, entry_idx = 1,
            exit_time = 2, exit_price = 101, profit_pct = Fin (4 / 5),
            exit_reason = Take_profit\<rparr>"
  let ?m = "\<lparr>total_trades = 1, win_rate = 100, avg_profit = Fin (4 / 5),
           total_profit = Fin (4 / 5), profit_factor = PInf, long_trades = 1,
           short_trades = 0, take_profit_exits = 1, stop_loss_exits = 0,
           market_close_exits = 0\<rparr>"
  let ?e2 = "\<lparr>take_profit = 1/100, stop_loss = 1/50, commission = 1/1000\<rparr>"
  have run: "backtest ?e ?g ?d = Inr ([?t], ?m)"
    by (simp add: backtest_def backtest_loop.simps simulate_trade_def calculate_exit_price_def
        calculate_performance_metrics_def pd_sum_def pd_mean_def fgt_def Let_def)
  have "profit_pct ?t = Fin ((take_profit ?e - commission ?e * 2) * 100)"
    using take_profit_exit[of ?e ?g ?d "[?t]" ?m ?t 0 0 "[]" True] run by simp
  then have val: "Fin (4 / 5) = Fin ((1/100 - 1/1000 * 2) * 100)" by simp
  have tp: "tp_reached ?e2 100 True (203/2)" and sl: "sl_reached ?e2 100 True (203/2)"
    by (simp_all add: tp_reached_def sl_reached_def calculate_exit_price_def)
  have "simulate_trade ?e2 [100, 203/2] 0 True =
          Inr (1, Fin (take_profit ?e2 - commission ?e2 * 2), Take_profit)"
    using take_profit_exit[of ?e2 "\<lambda>d. Inl IndexError" "[]" "[]" undefined undefined 0 1 "[100, 203/2]" True] tp
    by simp
  then have sim: "simulate_trade ?e2 [100, 203/2] 0 True = Inr (1, Fin (1/125), Take_profit)"
    by simp
  from run val tp sl sim show ?thesis by blast
qed

text \<open>
  The profit of a stop-loss exit: \<open>stop_loss - 2 * commission\<close> for a long trade,
  \<open>- stop_loss - 2 * commission\<close> for a short one.
\<close>

lemma simulate_trade_loop_sl_profit:
  "simulate_trade_loop e l tp sl ps i = Some (j, pr, Stop_loss)
     \<Longrightarrow> pr = Fin ((if l then stop_loss e else - stop_loss e) - commission e * 2)"
  by (induction ps arbitrary: i) (auto split: if_splits)

text \<open>
  C1.  The stop-loss profit of a short trade.  With \<open>stop_loss = -0.005\<close> and
  \<open>commission = 0.001\<close> a short entered at 100 and stopped out at 101 is recorded with
  \<open>profit_pct = +0.3\<close>, not with \<open>(stop_loss - 2 * commission) * 100 = -0.7\<close>: the short
  branch of the stop-loss exit negates \<open>stop_loss\<close>, the long branch does not.
\<close>

theorem short_stop_loss_profit:
  "backtest \<lparr>take_profit = 1/100, stop_loss = - (5/1000), commission = 1/1000\<rparr>
     (\<lambda>d. Inr [0, - 1, 0])
     [\<lparr>timestamp = 0, price = 100, low = 100\<rparr>, \<lparr>timestamp = 1, price = 100, low = 100\<rparr>,
      \<lparr>timestamp = 2, price = 101, low = 101\<rparr>]
   = Inr ([\<lparr>entry_time = 1, entry_price = 100, is_long = False, entry_idx = 1,
            exit_time = 2, exit_price = 101, profit_pct = Fin (3 / 10),
            exit_reason = Stop_loss\<rparr>],
          \<lparr>total_trades = 1, win_rate = 100, avg_profit = Fin (3 / 10),
           total_profit = Fin (3 / 10), profit_factor = PInf, long_trades = 0,
           short_trades = 1, take_profit_exits = 0, stop_loss_exits = 1,
           market_close_exits = 0\<rparr>) \<and>
   Fin (3 / 10) \<noteq> Fin ((- (5/1000) - 2 * (1/1000)) * 100)"
  by (simp add: backtest_def backtest_loop.simps simulate_trade_def calculate_exit_price_def
        calculate_performance_metrics_def pd_sum_def pd_mean_def fgt_def Let_def)

text \<open>The same exit on \<open>simulate_trade\<close> alone.\<close>

lemma short_stop_loss_simulate_trade:
  "simulate_trade \<lparr>take_profit = 1/100, stop_loss = - (5/1000), commission = 1/1000\<rparr>
     [100, 101] 0 False = Inr (1, Fin (3/1000), Stop_loss)"
  by (simp add: simulate_trade_def calculate_exit_price_def)

section \<open>Properties of the metrics\<close>

lemma foldl_fadd_zeros: "\<forall>x\<in>set xs. x = Fin 0 \<Longrightarrow> foldl fadd (Fin 0) xs = Fin 0"
  by (induction xs) auto

lemma pd_sum_zeros: "\<forall>x\<in>set xs. x = Fin 0 \<Longrightarrow> pd_sum xs = Fin 0"
  unfolding pd_sum_def by (rule foldl_fadd_zeros) auto

lemma not_negative_loser_zero: "fle x (Fin 0) \<Longrightarrow> \<not> flt x (Fin 0) \<Longrightarrow> x = Fin 0"
  by (cases x) auto

text \<open>
  C9.  A trade set that is not empty, with no trade of negative profit and at least one of
  positive profit, has \<open>profit_factor = +\<infinity>\<close>: the metrics are a value, never a division
  error.  (Trades of profit 0 count as losing in the source; their sum is 0 and the result
  is the same.)
\<close>

theorem profit_factor_no_losers:
  assumes "trades \<noteq> []"
    and "\<forall>t\<in>set trades. \<not> flt (profit_pct t) (Fin 0)"
    and "\<exists>t\<in>set trades. fgt (profit_pct t) (Fin 0)"
  shows "profit_factor (calculate_performance_metrics trades) = PInf"
proof -
  let ?losing = "filter (\<lambda>t. fle (profit_pct t) (Fin 0)) trades"
  have "\<forall>x\<in>set (map profit_pct ?losing). x = Fin 0"
    using assms(2) not_negative_loser_zero by auto
  then have "pd_sum (map profit_pct ?losing) = Fin 0"
    by (rule pd_sum_zeros)
  with assms(1) show ?thesis
    by (simp add: calculate_performance_metrics_def Let_def)
qed

text \<open>The theorem on a winning trade and a trade of profit 0.\<close>

theorem profit_factor_no_losers_witness:
  "[\<lparr>entry_time = 1, entry_price = 100, is_long = True, entry_idx = 1,
     exit_time = 2, exit_price = 101, profit_pct = Fin (4 / 5),
     exit_reason = Take_profit\<rparr>,
    \<lparr>entry_time = 3, entry_price = 100, is_long = True, entry_idx = 3,
     exit_time = 4, exit_price = 100, profit_pct = Fin 0,
     exit_reason = Market_close\<rparr>] \<noteq> [] \<and>
   \<not> flt (Fin (4 / 5)) (Fin 0) \<and> \<not> flt (Fin 0) (Fin 0) \<and> fgt (Fin (4 / 5)) (Fin 0) \<and>
   profit_factor (calculate_performance_metrics
     [\<lparr>entry_time = 1, entry_price = 100, is_long = True, entry_idx = 1,
       exit_time = 2, exit_price = 101, profit_pct = Fin (4 / 5),
       exit_reason = Take_profit\<rparr>,
      \<lparr>entry_time = 3, entry_price = 100, is_long = True, entry_idx = 3,
       exit_time = 4, exit_price = 100, profit_pct = Fin 0,
       exit_reason = Market_close\<rparr>]) = PInf"
  using profit_factor_no_losers[of
    "[\<lparr>entry_time = 1, entry_price = 100, is_long = True, entry_idx = 1,
       exit_time = 2, exit_price = 101, profit_pct = Fin (4 / 5),
       exit_reason = Take_profit\<rparr>,
      \<lparr>entry_time = 3, entry_price = 100, is_long = True, entry_idx = 3,
       exit_time = 4, exit_price = 100, profit_pct = Fin 0,
       exit_reason = Market_close\<rparr>]"]
  by (simp add: fgt_def)

section \<open>Properties of the indicator\<close>

lemma length_diff_from: "length (diff_from p ps) = length ps"
  by (induction ps arbitrary: p) auto

lemma length_pd_diff: "length (pd_diff ps) = length ps"
  by (cases ps) (auto simp: length_diff_from)

lemma length_ewm_from: "length (ewm_from al y xs) = length xs"
  by (induction xs arbitrary: y) (auto simp: Let_def)

lemma length_ewm_mean: "length (ewm_mean n xs) = length xs"
  by (cases xs) (auto simp: length_ewm_from)

lemma calculate_rsi_length:
  "calculate_rsi n prices = Inr rsi \<Longrightarrow> length rsi = length prices"
  by (auto simp: calculate_rsi_def Let_def length_ewm_mean length_pd_diff split: if_splits)

lemma calculate_rsi_total:
  "1 \<le> n \<Longrightarrow> \<exists>rsi. calculate_rsi n prices = Inr rsi"
  by (auto simp: calculate_rsi_def Let_def)

lemma shift1_nth:
  "i < length xs \<Longrightarrow> shift1 xs ! i = (if i = 0 then NaN else xs ! (i - 1))"
  by (cases i) (auto simp: shift1_def nth_butlast)

lemma length_shift1: "length (shift1 xs) = length xs"
  by (auto simp: shift1_def)

section \<open>Properties of the threshold-crossing generator\<close>

lemma buy_sell_exclusive: "\<not> (buy_condition a r prev \<and> sell_condition a r prev)"
  by (cases r; cases prev) (auto simp: buy_condition_def sell_condition_def fgt_def fge_def)

text \<open>
  C8.  For a period of at least 1 the threshold-crossing generator returns one signal per
  row, and at every index the signal is \<open>+1\<close> exactly when the oscillator was at or below
  the oversold threshold at the index before and is above it now, \<open>-1\<close> exactly when it was
  at or above the overbought threshold at the index before and is below it now, and \<open>0\<close>
  everywhere else; only the index before is read, and index 0 has none.
\<close>

theorem threshold_crossing_signals:
  assumes "1 \<le> period a"
  shows "\<exists>rsi signals.
           calculate_rsi (period a) (map price data) = Inr rsi \<and>
           rsi_generate_signals a data = Inr signals \<and>
           length signals = length data \<and>
           (\<forall>i<length data.
              (signals ! i = 1 \<longleftrightarrow>
                 0 < i \<and> fle (rsi ! (i - 1)) (Fin (oversold_threshold a)) \<and>
                 fgt (rsi ! i) (Fin (oversold_threshold a))) \<and>
              (signals ! i = - 1 \<longleftrightarrow>
                 0 < i \<and> fge (rsi ! (i - 1)) (Fin (overbought_threshold a)) \<and>
                 flt (rsi ! i) (Fin (overbought_threshold a))) \<and>
              (signals ! i = 0 \<longleftrightarrow> signals ! i \<noteq> 1 \<and> signals ! i \<noteq> - 1))"
proof -
  from assms obtain rsi where rsi: "calculate_rsi (period a) (map price data) = Inr rsi"
    using calculate_rsi_total by blast
  then have len: "length rsi = length data"
    using calculate_rsi_length by fastforce
  define signals where "signals = map2 (\<lambda>r prev. if sell_condition a r prev then - 1
                               else if buy_condition a r prev then (1::int) else 0)
                 rsi (shift1 rsi)"
  have gen: "rsi_generate_signals a data = Inr signals"
    by (simp add: rsi_generate_signals_def rsi signals_def)
  have slen: "length signals = length data"
    by (simp add: signals_def len length_shift1)
  have nth: "signals ! i = (if sell_condition a (rsi ! i) (shift1 rsi ! i) then - 1
                 else if buy_condition a (rsi ! i) (shift1 rsi ! i) then 1 else 0)"
    if "i < length data" for i
    using that by (simp add: signals_def len length_shift1)
  have "(signals ! i = 1 \<longleftrightarrow>
                 0 < i \<and> fle (rsi ! (i - 1)) (Fin (oversold_threshold a)) \<and>
                 fgt (rsi ! i) (Fin (oversold_threshold a))) \<and>
              (signals ! i = - 1 \<longleftrightarrow>
                 0 < i \<and> fge (rsi ! (i - 1)) (Fin (overbought_threshold a)) \<and>
                 flt (rsi ! i) (Fin (overbought_threshold a))) \<and>
              (signals ! i = 0 \<longleftrightarrow> signals ! i \<noteq> 1 \<and> signals ! i \<noteq> - 1)"
    if i: "i < length data" for i
  proof (cases "i = 0")
    case True
    with i show ?thesis
      by (simp add: nth shift1_nth len buy_condition_def sell_condition_def fge_def)
  next
    case False
    with i have sh: "shift1 rsi ! i = rsi ! (i - 1)"
      by (simp add: shift1_nth len)
    from False i show ?thesis
      using buy_sell_exclusive[of a "rsi ! i" "rsi ! (i - 1)"]
      by (auto simp: nth sh buy_condition_def sell_condition_def)
  qed
  with rsi gen slen show ?thesis by blast
qed

text \<open>The theorem on the prices 100, 99, 94, 96 with period 4: a buy at index 3.\<close>

theorem threshold_crossing_signals_witness:
  "1 \<le> period \<lparr>period = 4, oversold_threshold = 30, overbought_threshold = 70\<rparr> \<and>
   (\<exists>signals.
      rsi_generate_signals \<lparr>period = 4, oversold_threshold = 30, overbought_threshold = 70\<rparr>
        [\<lparr>timestamp = 0, price = 100, low = 100\<rparr>, \<lparr>timestamp = 1, price = 99, low = 99\<rparr>,
         \<lparr>timestamp = 2, price = 94, low = 94\<rparr>, \<lparr>timestamp = 3, price = 96, low = 96\<rparr>]
        = Inr signals \<and>
      length signals = 4 \<and> signals ! 3 = 1 \<and> signals ! 1 = 0)"
proof -
  let ?a = "\<lparr>period = 4, oversold_threshold = 30, overbought_threshold = 70\<rparr>"
  let ?d = "[\<lparr>timestamp = 0, price = 100, low = 100\<rparr>, \<lparr>timestamp = 1, price = 99, low = 99\<rparr>,
         \<lparr>timestamp = 2, price = 94, low = 94\<rparr>, \<lparr>timestamp = 3, price = 96, low = 96\<rparr>]"
  have p: "1 \<le> period ?a" by simp
  have r: "calculate_rsi (period ?a) (map price ?d) = Inr [NaN, Fin 0, Fin 0, Fin (2500 / 67)]"
    by (simp add: calculate_rsi_def fgt_def fsub_def Let_def)
  from threshold_crossing_signals[OF p, of ?d] r obtain signals where
    g: "rsi_generate_signals ?a ?d = Inr signals" and l: "length signals = length ?d" and
    q: "\<forall>i<length ?d.
              (signals ! i = 1 \<longleftrightarrow>
                 0 < i \<and> fle ([NaN, Fin 0, Fin 0, Fin (2500 / 67)] ! (i - 1)) (Fin (oversold_threshold ?a)) \<and>
                 fgt ([NaN, Fin 0, Fin 0, Fin (2500 / 67)] ! i) (Fin (oversold_threshold ?a))) \<and>
              (signals ! i = - 1 \<longleftrightarrow>
                 0 < i \<and> fge ([NaN, Fin 0, Fin 0, Fin (2500 / 67)] ! (i - 1)) (Fin (overbought_threshold ?a)) \<and>
                 flt ([NaN, Fin 0, Fin 0, Fin (2500 / 67)] ! i) (Fin (overbought_threshold ?a))) \<and>
              (signals ! i = 0 \<longleftrightarrow> signals ! i \<noteq> 1 \<and> signals ! i \<noteq> - 1)"
    by auto
  from q[rule_format, of 3] have s3: "signals ! 3 = 1"
    by (simp add: fgt_def)
  from q[rule_format, of 1] have s1: "signals ! 1 = 0"
    by (simp add: fgt_def fge_def)
  from p g l s3 s1 show ?thesis by auto
qed

section \<open>Properties of the optimizer\<close>

lemma flt_fle_trans: "flt b x \<Longrightarrow> fle a b \<Longrightarrow> flt a x"
  by (cases a; cases b; cases x) auto

lemma fle_trans: "fle a b \<Longrightarrow> fle b c \<Longrightarrow> fle a c"
  by (cases a; cases b; cases c) auto

lemma flt_imp_fle: "flt a b \<Longrightarrow> fle a b"
  by (cases a; cases b) auto

lemma fle_refl_iff: "fle a a \<longleftrightarrow> a \<noteq> NaN"
  by (cases a) auto

lemma fle_not_NaN: "fle a b \<Longrightarrow> a \<noteq> NaN \<and> b \<noteq> NaN"
  by (cases a; cases b) auto

lemma optimize_loop_results:
  "fst (optimize_loop run mn combos (res, b)) = res @ recorded run combos"
  by (induction combos arbitrary: res b) (auto simp: recorded_def split: sum.splits)

lemma optimize_loop_best:
  assumes "fle (best_total_profit b) (best_total_profit b)"
  shows "(snd (optimize_loop run mn combos (res, b)) = b \<or>
          selected_from run mn combos (snd (optimize_loop run mn combos (res, b)))) \<and>
         fle (best_total_profit b) (best_total_profit (snd (optimize_loop run mn combos (res, b)))) \<and>
         (\<forall>ps\<in>set combos. \<forall>trades m. run ps = Inr (trades, m) \<and> total_trades m \<ge> mn \<longrightarrow>
            \<not> fgt (total_profit m) (best_total_profit (snd (optimize_loop run mn combos (res, b)))))"
  using assms
proof (induction combos arbitrary: res b)
  case Nil
  then show ?case by simp
next
  case (Cons ps rest)
  show ?case
  proof (cases "run ps")
    case (Inl err)
    with Cons.IH[OF Cons.prems, of res] show ?thesis
      by (auto simp: selected_from_def)
  next
    case (Inr r)
    obtain trades m where r: "r = (trades, m)" by (cases r)
    let ?take = "fgt (total_profit m) (best_total_profit b) \<and> total_trades m \<ge> mn"
    let ?b' = "if ?take then \<lparr>best_total_profit = total_profit m, parameters = Some ps,
                   best_metrics = Some m, best_trades_df = Some trades\<rparr> else b"
    let ?out = "optimize_loop run mn rest (res @ [(ps, m)], ?b')"
    have step: "optimize_loop run mn (ps # rest) (res, b) = ?out"
      using Inr r by simp
    have ok': "fle (best_total_profit ?b') (best_total_profit ?b')"
      using Cons.prems by (auto simp: fgt_def fle_refl_iff dest: flt_imp_fle fle_not_NaN)
    have mono: "fle (best_total_profit b) (best_total_profit ?b')"
      using Cons.prems by (auto simp: fgt_def dest: flt_imp_fle)
    note IH = Cons.IH[OF ok', of "res @ [(ps, m)]"]
    have 1: "snd ?out = b \<or> selected_from run mn (ps # rest) (snd ?out)"
    proof (cases ?take)
      case True
      then have "selected_from run mn (ps # rest) ?b'"
        using Inr r by (auto simp: selected_from_def)
      with IH show ?thesis by (auto simp: selected_from_def)
    next
      case False
      with IH show ?thesis by (auto simp: selected_from_def)
    qed
    have 2: "fle (best_total_profit b) (best_total_profit (snd ?out))"
      using mono IH fle_trans by blast
    have 3: "\<not> fgt (total_profit m') (best_total_profit (snd ?out))"
      if "qs \<in> set (ps # rest)" "run qs = Inr (trades', m')" "total_trades m' \<ge> mn"
      for qs trades' m'
    proof (cases "qs \<in> set rest")
      case True
      with IH that show ?thesis by blast
    next
      case False
      with that Inr r have eq: "m' = m" by auto
      have "\<not> fgt (total_profit m) (best_total_profit ?b')"
        using that eq by (cases "total_profit m") (auto simp: fgt_def)
      moreover have "fle (best_total_profit ?b') (best_total_profit (snd ?out))"
        using IH by blast
      ultimately show ?thesis
        unfolding eq fgt_def using flt_fle_trans by blast
    qed
    from 1 2 3 show ?thesis unfolding step by blast
  qed
qed

lemma selected_from_parameters:
  "selected_from run mn combos b \<Longrightarrow> parameters b \<noteq> None"
  by (auto simp: selected_from_def)

lemma selected_from_eligible:
  "selected_from run mn combos b \<Longrightarrow>
     \<exists>ps\<in>set combos. \<exists>trades m. run ps = Inr (trades, m) \<and> total_trades m \<ge> mn"
  by (auto simp: selected_from_def)

text \<open>
  C7.  When \<open>optimize\<close> returns, the results list holds every combination whose run did
  not raise, in order, whatever its number of trades; the best result is either the initial
  one (no parameters) or a combination that ran with at least the minimum number of trades,
  with its own total profit, metrics and trades; no combination that reaches the minimum
  has a total profit greater than the best one; when no combination reaches the minimum the
  result is the initial one, with \<open>parameters = None\<close>; and when one does, with a total
  profit above \<open>-\<infinity>\<close>, parameters are selected.
\<close>

theorem optimize_selects_best:
  assumes "optimize st algorithm_name data = Inr (results, best)"
  shows "\<exists>combos.
     get_parameter_combinations st algorithm_name = Inr combos \<and>
     results = recorded (run_combination st data) combos \<and>
     (best = initial_best \<or>
      selected_from (run_combination st data) (min_trades_threshold st) combos best) \<and>
     (\<forall>ps\<in>set combos. \<forall>trades m.
        run_combination st data ps = Inr (trades, m) \<and> total_trades m \<ge> min_trades_threshold st
        \<longrightarrow> \<not> fgt (total_profit m) (best_total_profit best)) \<and>
     ((\<forall>ps\<in>set combos. \<forall>trades m.
         run_combination st data ps = Inr (trades, m) \<longrightarrow> total_trades m < min_trades_threshold st)
      \<longrightarrow> best = initial_best \<and> parameters best = None) \<and>
     ((\<exists>ps\<in>set combos. \<exists>trades m.
         run_combination st data ps = Inr (trades, m) \<and> total_trades m \<ge> min_trades_threshold st \<and>
         fgt (total_profit m) NInf)
      \<longrightarrow> parameters best \<noteq> None)"
proof -
  let ?run = "run_combination st data"
  let ?mn = "min_trades_threshold st"
  from assms obtain combos where
    c: "get_parameter_combinations st algorithm_name = Inr combos" and
    out: "optimize_loop ?run ?mn combos ([], initial_best) = (results, best)"
    by (auto simp: optimize_def split: sum.splits)
  have r: "results = recorded ?run combos"
    using optimize_loop_results[of ?run ?mn combos "[]" initial_best] out by simp
  have "fle (best_total_profit initial_best) (best_total_profit initial_best)"
    by (simp add: initial_best_def)
  from optimize_loop_best[OF this, of ?run ?mn combos "[]"] out
  have b: "best = initial_best \<or> selected_from ?run ?mn combos best"
    and top: "\<forall>ps\<in>set combos. \<forall>trades m.
        ?run ps = Inr (trades, m) \<and> total_trades m \<ge> ?mn
        \<longrightarrow> \<not> fgt (total_profit m) (best_total_profit best)"
    by auto
  have none: "best = initial_best \<and> parameters best = None"
    if "\<forall>ps\<in>set combos. \<forall>trades m. ?run ps = Inr (trades, m) \<longrightarrow> total_trades m < ?mn"
  proof -
    from that have "\<not> selected_from ?run ?mn combos best"
      using selected_from_eligible[of ?run ?mn combos best] by fastforce
    with b show ?thesis by (auto simp: initial_best_def)
  qed
  have some: "parameters best \<noteq> None"
    if "\<exists>ps\<in>set combos. \<exists>trades m.
         ?run ps = Inr (trades, m) \<and> total_trades m \<ge> ?mn \<and> fgt (total_profit m) NInf"
  proof -
    from that top have "best_total_profit best \<noteq> NInf" by metis
    then have "best \<noteq> initial_best" by (auto simp: initial_best_def)
    with b show ?thesis using selected_from_parameters by blast
  qed
  from c r b top none some show ?thesis by blast
qed

lemma run_combination_no_data:
  "run_combination st [] (per, os, ob, tp, sl) =
     (if per < 1 then Inl ValueError
      else Inr ([], \<lparr>total_trades = 0, win_rate = 0, avg_profit = Fin 0,
           total_profit = Fin 0, profit_factor = Fin 0, long_trades = 0,
           short_trades = 0, take_profit_exits = 0, stop_loss_exits = 0,
           market_close_exits = 0\<rparr>))"
  by (simp add: run_combination_def backtest_def backtest_loop.simps rsi_generate_signals_def
      calculate_rsi_def calculate_performance_metrics_def shift1_def Let_def)

lemma optimize_returns:
  assumes "get_parameter_combinations st n = Inr c"
  shows "\<exists>results best. optimize st n data = Inr (results, best)"
  using assms
  by (cases "optimize_loop (run_combination st data) (min_trades_threshold st) c ([], initial_best)")
     (simp add: optimize_def)

text \<open>
  The theorem on the \<open>RSI\<close> ranges with no data, where every run ends with no trade and a
  total profit of 0: with a minimum of 0 trades a combination is selected, with a minimum
  of 1 none is.
\<close>

theorem optimize_selects_best_witness:
  "(\<exists>results best.
      optimize \<lparr>rsi_params_take_profit = [1/100], rsi_params_stop_loss = [- (1/200)],
                commission_rate = 1/1000, min_trades_threshold = 0\<rparr> ''RSI'' [] = Inr (results, best) \<and>
      parameters best \<noteq> None) \<and>
   (\<exists>results best.
      optimize \<lparr>rsi_params_take_profit = [1/100], rsi_params_stop_loss = [- (1/200)],
                commission_rate = 1/1000, min_trades_threshold = 1\<rparr> ''RSI'' [] = Inr (results, best) \<and>
      best = initial_best \<and> parameters best = None)"
proof -
  let ?s0 = "\<lparr>rsi_params_take_profit = [1/100], rsi_params_stop_loss = [- (1/200)],
                commission_rate = 1/1000, min_trades_threshold = 0\<rparr>"
  let ?s1 = "\<lparr>rsi_params_take_profit = [1/100], rsi_params_stop_loss = [- (1/200)],
                commission_rate = 1/1000, min_trades_threshold = 1\<rparr>"
  have "\<exists>c. get_parameter_combinations ?s0 ''RSI'' = Inr c"
    by (simp add: get_parameter_combinations_def)
  then obtain r0 b0 where o0: "optimize ?s0 ''RSI'' [] = Inr (r0, b0)"
    using optimize_returns by blast
  have "\<exists>c. get_parameter_combinations ?s1 ''RSI'' = Inr c"
    by (simp add: get_parameter_combinations_def)
  then obtain r1 b1 where o1: "optimize ?s1 ''RSI'' [] = Inr (r1, b1)"
    using optimize_returns by blast
  from optimize_selects_best[OF o0] obtain c0 where
    c0: "get_parameter_combinations ?s0 ''RSI'' = Inr c0" and
    some: "(\<exists>ps\<in>set c0. \<exists>trades m.
         run_combination ?s0 [] ps = Inr (trades, m) \<and> total_trades m \<ge> min_trades_threshold ?s0 \<and>
         fgt (total_profit m) NInf)
      \<longrightarrow> parameters b0 \<noteq> None"
    by blast
  have "(10, 20, 65, 1/100, - (1/200)) \<in> set c0"
    using c0 by (auto simp: get_parameter_combinations_def)
  moreover have "\<exists>trades m. run_combination ?s0 [] (10, 20, 65, 1/100, - (1/200)) = Inr (trades, m) \<and>
      total_trades m \<ge> min_trades_threshold ?s0 \<and> fgt (total_profit m) NInf"
    by (simp add: run_combination_no_data fgt_def)
  ultimately have p0: "parameters b0 \<noteq> None"
    using some by blast
  from optimize_selects_best[OF o1] obtain c1 where
    none: "(\<forall>ps\<in>set c1. \<forall>trades m.
         run_combination ?s1 [] ps = Inr (trades, m) \<longrightarrow> total_trades m < min_trades_threshold ?s1)
      \<longrightarrow> b1 = initial_best \<and> parameters b1 = None"
    by blast
  have "\<forall>ps\<in>set c1. \<forall>trades m.
         run_combination ?s1 [] ps = Inr (trades, m) \<longrightarrow> total_trades m < min_trades_threshold ?s1"
  proof (intro ballI allI impI)
    fix ps trades m
    assume a: "run_combination ?s1 [] ps = Inr (trades, m)"
    obtain per os ob tp sl where "ps = (per, os, ob, tp, sl)" by (cases ps)
    with a show "total_trades m < min_trades_threshold ?s1"
      by (auto simp: run_combination_no_data split: if_splits)
  qed
  with none have "b1 = initial_best \<and> parameters b1 = None" by blast
  with o0 o1 p0 show ?thesis by blast
qed

text \<open>Scenario E of the specification on the loop.\<close>

lemma optimize_loop_scenario_E:
  "snd (optimize_loop
     (\<lambda>ps. if ps = (10, 20, 65, 1/100, - (1/200))
            then Inr ([], \<lparr>total_trades = 3, win_rate = 100, avg_profit = Fin (5/3),
                            total_profit = Fin 5, profit_factor = PInf, long_trades = 3,
                            short_trades = 0, take_profit_exits = 3, stop_loss_exits = 0,
                            market_close_exits = 0\<rparr>)
            else Inr ([], \<lparr>total_trades = 6, win_rate = 100, avg_profit = Fin (1/2),
                            total_profit = Fin 3, profit_factor = PInf, long_trades = 6,
                            short_trades = 0, take_profit_exits = 6, stop_loss_exits = 0,
                            market_close_exits = 0\<rparr>))
     5 [(10, 20, 65, 1/100, - (1/200)), (12, 20, 65, 1/100, - (1/200))] ([], initial_best))
   = \<lparr>best_total_profit = Fin 3, parameters = Some (12, 20, 65, 1/100, - (1/200)),
      best_metrics = Some \<lparr>total_trades = 6, win_rate = 100, avg_profit = Fin (1/2),
                            total_profit = Fin 3, profit_factor = PInf, long_trades = 6,
                            short_trades = 0, take_profit_exits = 6, stop_loss_exits = 0,
                            market_close_exits = 0\<rparr>,
      best_trades_df = Some []\<rparr>"
  by (simp add: initial_best_def fgt_def)

section \<open>Properties of the double-confirm generator\<close>

lemma dc_generate_signals_nth:
  assumes "dc_generate_signals a data = Inr signals"
    and "calculate_rsi (period a) (map price data) = Inr rsi"
    and "i < length data"
  shows "signals ! i = dc_signal_at a rsi (map price data) i"
  using assms by (auto simp: dc_generate_signals_def)

text \<open>
  C10.  In the batch double-confirm generator, at every index where the short condition
  and the cover condition both hold, the signal is \<open>+1\<close> and not \<open>-1\<close>: the cover mask is
  assigned after the short loop.
\<close>

theorem cover_overrides_short:
  assumes "dc_generate_signals a data = Inr signals"
    and "calculate_rsi (period a) (map price data) = Inr rsi"
    and "i < length data"
    and "short_condition a rsi (map price data) i"
    and "cover_condition a rsi i"
  shows "signals ! i = 1 \<and> signals ! i \<noteq> - 1"
  using dc_generate_signals_nth[OF assms(1,2,3)] assms(5)
  by (simp add: dc_signal_at_def)

text \<open>
  A fall, ten rises and a fall below the ten prices before, with period 2: at index 12 the
  generator is topped, the oscillator goes from above 50 to below the oversold threshold,
  and the price is under the support.
\<close>

lemma rsi_up_then_down:
  "calculate_rsi 2 [100, 90, 91, 92, 93, 94, 95, 96, 97, 98, 99, 100, 80] =
     Inr [NaN, Fin 0, Fin (300 / 13), Fin (600 / 11), Fin (3900 / 49), Fin (1200 / 13),
          Fin (36300 / 373), Fin (54600 / 551), Fin (327900 / 3289), Fin (19680 / 197),
          Fin (2952300 / 29533), Fin (4428600 / 44291), Fin (4428600 / 1815761)]"
  by (simp add: calculate_rsi_def fgt_def fsub_def Let_def)

text \<open>The theorem on that series, at index 12.\<close>

theorem cover_overrides_short_witness:
  "(\<exists>signals rsi.
      dc_generate_signals \<lparr>period = 2, oversold_threshold = 20, overbought_threshold = 65\<rparr>
        (rows [100, 90, 91, 92, 93, 94, 95, 96, 97, 98, 99, 100, 80]) = Inr signals \<and>
      calculate_rsi 2 [100, 90, 91, 92, 93, 94, 95, 96, 97, 98, 99, 100, 80] = Inr rsi \<and>
      short_condition \<lparr>period = 2, oversold_threshold = 20, overbought_threshold = 65\<rparr> rsi
        [100, 90, 91, 92, 93, 94, 95, 96, 97, 98, 99, 100, 80] 12 \<and>
      cover_condition \<lparr>period = 2, oversold_threshold = 20, overbought_threshold = 65\<rparr> rsi 12 \<and>
      signals ! 12 = 1)"
proof -
  let ?a = "\<lparr>period = 2, oversold_threshold = 20, overbought_threshold = 65\<rparr>"
  let ?ps = "[100, 90, 91, 92, 93, 94, 95, 96, 97, 98, 99, 100, 80] :: real list"
  let ?d = "rows ?ps"
  let ?r = "[NaN, Fin 0, Fin (300 / 13), Fin (600 / 11), Fin (3900 / 49), Fin (1200 / 13),
          Fin (36300 / 373), Fin (54600 / 551), Fin (327900 / 3289), Fin (19680 / 197),
          Fin (2952300 / 29533), Fin (4428600 / 44291), Fin (4428600 / 1815761)]"
  have pr: "map price ?d = ?ps" by (rule price_rows)
  have r: "calculate_rsi (period ?a) (map price ?d) = Inr ?r"
    unfolding pr using rsi_up_then_down by simp
  obtain signals where g: "dc_generate_signals ?a ?d = Inr signals"
    using r by (simp add: dc_generate_signals_def del: upt.simps)
  have l: "12 < length ?d"
    by (simp add: length_rows)
  have s: "short_condition ?a ?r (map price ?d) 12"
    by (simp add: price_rows short_condition_def rsi_topped_at_def support_levels_at_def window_def
          pd_max_def fmax_def fge_def fgt_def Let_def)
  have c: "cover_condition ?a ?r 12"
    by (simp add: cover_condition_def shift1_def fgt_def)
  have "signals ! 12 = 1"
    using cover_overrides_short[OF g r l s c] by simp
  with g r s c pr rsi_up_then_down show ?thesis by auto
qed

section \<open>The topped flag\<close>

text \<open>
  C5, as stated, fails on the batch generator: on the prices 100, 99, 94, 96, 99, 96, 93
  with period 4 and overbought threshold 70 the flag is true at index 5 (a peak of 67.6 at
  index 4) and false again at index 6, with no trade in between.
\<close>

theorem batch_topped_lapses:
  "calculate_rsi 4 [100, 99, 94, 96, 99, 96, 93] =
     Inr [NaN, Fin 0, Fin 0, Fin (2500 / 67), Fin (2500 / 37), Fin (26250 / 701),
          Fin (157500 / 7331)] \<and>
   rsi_topped_at \<lparr>period = 4, oversold_threshold = 30, overbought_threshold = 70\<rparr>
     [NaN, Fin 0, Fin 0, Fin (2500 / 67), Fin (2500 / 37), Fin (26250 / 701),
      Fin (157500 / 7331)] 5 \<and>
   \<not> rsi_topped_at \<lparr>period = 4, oversold_threshold = 30, overbought_threshold = 70\<rparr>
     [NaN, Fin 0, Fin 0, Fin (2500 / 67), Fin (2500 / 37), Fin (26250 / 701),
      Fin (157500 / 7331)] 6"
  by (simp add: calculate_rsi_def rsi_topped_at_def window_def pd_max_def fmax_def
        fge_def fgt_def fsub_def Let_def)

lemma update_rsi_state_topped:
  "rsi_topped p \<Longrightarrow> rsi_topped (update_rsi_state p r df)"
  by (simp add: update_rsi_state_def Let_def)

text \<open>
  C5, amended.  In the streaming state machine the flag, once true, is true after every
  later call of \<open>update_rsi_state\<close>, whatever the oscillator values and candles fed.
\<close>

theorem streaming_topped_persists:
  assumes "rsi_topped (feed p rsi data n)" and "n \<le> m"
  shows "rsi_topped (feed p rsi data m)"
  using assms(2,1)
  by (induction m rule: dec_induct) (auto intro: update_rsi_state_topped)

text \<open>The same seven points fed to the panel: topped after six of them, and after seven.\<close>

theorem streaming_topped_persists_witness:
  "rsi_topped (feed (init_panel \<lparr>period = 4, oversold_threshold = 30, overbought_threshold = 70\<rparr>)
     [NaN, Fin 0, Fin 0, Fin (2500 / 67), Fin (2500 / 37), Fin (26250 / 701), Fin (157500 / 7331)]
     (rows [100, 99, 94, 96, 99, 96, 93]) 6) \<and>
   (6::nat) \<le> 7 \<and>
   rsi_topped (feed (init_panel \<lparr>period = 4, oversold_threshold = 30, overbought_threshold = 70\<rparr>)
     [NaN, Fin 0, Fin 0, Fin (2500 / 67), Fin (2500 / 37), Fin (26250 / 701), Fin (157500 / 7331)]
     (rows [100, 99, 94, 96, 99, 96, 93]) 7)"
proof -
  let ?p = "init_panel \<lparr>period = 4, oversold_threshold = 30, overbought_threshold = 70\<rparr>"
  let ?r = "[NaN, Fin 0, Fin 0, Fin (2500 / 67), Fin (2500 / 37), Fin (26250 / 701), Fin (157500 / 7331)]"
  let ?d = "rows [100, 99, 94, 96, 99, 96, 93]"
  have t6: "rsi_topped (feed ?p ?r ?d 6)"
    by (simp add: eval_nat_numeral rows_def init_panel_def update_rsi_state_def last_n_def from_end_def
          fge_def fgt_def Let_def)
  have le: "(6::nat) \<le> 7" by simp
  from streaming_topped_persists[OF t6 le] t6 le show ?thesis by blast
qed

section \<open>The range of the indicator\<close>

lemma rsi_of_range:
  assumes "nonneg g" and "nonneg l"
  shows "rsi_of g l = NaN \<or> (\<exists>v. rsi_of g l = Fin v \<and> 0 \<le> v \<and> v \<le> 100)"
proof -
  from assms obtain a b where g: "g = Fin a" "0 \<le> a" and l: "l = Fin b" "0 \<le> b"
    by (auto simp: nonneg_def)
  show ?thesis
  proof (cases "b = 0")
    case True
    with g l show ?thesis by (auto simp: rsi_of_def fsub_def)
  next
    case False
    with l have b: "0 < b" by simp
    then have q: "0 \<le> a / b" using g by simp
    then have pos: "1 + a / b \<noteq> 0" by linarith
    have "100 / (1 + a / b) \<le> 100"
      using q by (simp add: divide_le_eq)
    moreover have "0 \<le> 100 / (1 + a / b)"
      using q by simp
    ultimately show ?thesis
      using g l False pos by (simp add: rsi_of_def fsub_def)
  qed
qed

lemma rsi_of_defined:
  assumes "nonneg g" and "nonneg l" and "g \<noteq> Fin 0 \<or> l \<noteq> Fin 0"
  shows "rsi_of g l \<noteq> NaN"
proof -
  from assms obtain a b where g: "g = Fin a" "0 \<le> a" and l: "l = Fin b" "0 \<le> b"
    by (auto simp: nonneg_def)
  show ?thesis
  proof (cases "b = 0")
    case True
    with g l assms(3) show ?thesis by (auto simp: rsi_of_def fsub_def)
  next
    case False
    with l have "0 < b" by simp
    then have "0 \<le> a / b" using g by simp
    then have "1 + a / b \<noteq> 0" by linarith
    with g l False show ?thesis by (simp add: rsi_of_def fsub_def)
  qed
qed

lemma diff_from_nth:
  "i < length ps \<Longrightarrow> diff_from p ps ! i = Fin (ps ! i - (p # ps) ! i)"
  by (induction ps arbitrary: p i) (auto simp: nth_Cons split: nat.splits)

lemma pd_diff_nth:
  "i < length ps \<Longrightarrow> pd_diff ps ! i = (if i = 0 then NaN else Fin (ps ! i - ps ! (i - 1)))"
  by (cases ps; cases i) (auto simp: diff_from_nth)

lemma ewm_from_nth:
  "i < length xs \<Longrightarrow>
   ewm_from alpha y xs ! i = ewm_step alpha ((y # ewm_from alpha y xs) ! i) (xs ! i)"
proof (induction xs arbitrary: y i)
  case Nil
  then show ?case by simp
next
  case (Cons x xs)
  show ?case
  proof (cases i)
    case 0
    then show ?thesis by (simp add: Let_def ewm_step_def)
  next
    case (Suc j)
    with Cons.prems have "j < length xs" by simp
    from Cons.IH[OF this] Suc show ?thesis by (simp add: Let_def)
  qed
qed

lemma ewm_mean_nth:
  "i < length xs \<Longrightarrow>
   ewm_mean n xs ! i =
     (if i = 0 then xs ! 0
      else ewm_step (2 / (real n + 1)) (ewm_mean n xs ! (i - 1)) (xs ! i))"
  by (cases xs; cases i) (auto simp: ewm_from_nth)

lemma ewm_step_nonneg:
  assumes "0 \<le> alpha" "alpha \<le> 1" "nonneg y" "nonneg x"
  shows "nonneg (ewm_step alpha y x)"
  using assms by (auto simp: nonneg_def ewm_step_def)

lemma ewm_step_pos:
  assumes "0 < alpha" "alpha \<le> 1" "nonneg y" "x = Fin v" "0 < v"
  shows "nonneg (ewm_step alpha y x) \<and> ewm_step alpha y x \<noteq> Fin 0"
proof -
  from assms obtain w where y: "y = Fin w" "0 \<le> w" by (auto simp: nonneg_def)
  have "0 \<le> (1 - alpha) * w" using assms y by simp
  moreover have "0 < alpha * v" using assms by simp
  ultimately have "0 < (1 - alpha) * w + alpha * v" by linarith
  with y assms show ?thesis by (auto simp: nonneg_def ewm_step_def)
qed

lemma ewm_mean_nonneg:
  assumes "1 \<le> n" and "\<forall>x\<in>set xs. nonneg x" and "i < length xs"
  shows "nonneg (ewm_mean n xs ! i)"
  using assms(3)
proof (induction i)
  case 0
  with assms(2) show ?case by (simp add: ewm_mean_nth)
next
  case (Suc i)
  have a: "0 \<le> 2 / (real n + 1)" "2 / (real n + 1) \<le> 1"
    using assms(1) by auto
  from Suc have "nonneg (ewm_mean n xs ! i)" by simp
  moreover have "nonneg (xs ! Suc i)" using assms(2) Suc.prems by simp
  ultimately show ?case
    using Suc.prems a by (simp add: ewm_mean_nth ewm_step_nonneg)
qed

lemma pd_diff_cases:
  "x \<in> set (pd_diff ps) \<Longrightarrow> x = NaN \<or> (\<exists>d. x = Fin d)"
  by (auto simp: in_set_conv_nth length_pd_diff pd_diff_nth split: if_splits)

lemma gain_nonneg:
  "x \<in> set (pd_diff ps) \<Longrightarrow> nonneg (if fgt x (Fin 0) then x else Fin 0)"
  by (auto dest!: pd_diff_cases simp: nonneg_def fgt_def)

lemma loss_nonneg:
  "x \<in> set (pd_diff ps) \<Longrightarrow> nonneg (fneg (if flt x (Fin 0) then x else Fin 0))"
  by (auto dest!: pd_diff_cases simp: nonneg_def)

text \<open>
  C6, amended.  For a period of at least 1 \<open>calculate_rsi\<close> returns one value per price;
  the value at index 0 is NaN; every value is NaN or lies in [0, 100]; and at every index
  after the first where the price differs from the price before, the value is not NaN,
  below the period as well as above it.
\<close>

theorem rsi_range:
  assumes "1 \<le> n"
  shows "\<exists>rsi. calculate_rsi n prices = Inr rsi \<and> length rsi = length prices \<and>
     (\<forall>i<length prices.
        (i = 0 \<longrightarrow> rsi ! i = NaN) \<and>
        (rsi ! i = NaN \<or> (\<exists>v. rsi ! i = Fin v \<and> 0 \<le> v \<and> v \<le> 100)) \<and>
        (0 < i \<and> prices ! i \<noteq> prices ! (i - 1) \<longrightarrow> rsi ! i \<noteq> NaN))"
proof -
  define delta where "delta = pd_diff prices"
  define gain where "gain = map (\<lambda>d. if fgt d (Fin 0) then d else Fin 0) delta"
  define loss where "loss = map (\<lambda>d. fneg (if flt d (Fin 0) then d else Fin 0)) delta"
  define avg_gain where "avg_gain = ewm_mean n gain"
  define avg_loss where "avg_loss = ewm_mean n loss"
  define rsi where "rsi = map (\<lambda>r. fsub (Fin 100) (fdiv (Fin 100) (fadd (Fin 1) r)))
                            (map2 fdiv avg_gain avg_loss)"
  have res: "calculate_rsi n prices = Inr rsi"
    using assms
    by (simp add: calculate_rsi_def Let_def rsi_def avg_gain_def avg_loss_def gain_def loss_def
          delta_def)
  have len: "length delta = length prices" "length gain = length prices"
    "length loss = length prices" "length avg_gain = length prices"
    "length avg_loss = length prices" "length rsi = length prices"
    by (simp_all add: delta_def gain_def loss_def avg_gain_def avg_loss_def rsi_def
          length_pd_diff length_ewm_mean)
  have gn: "\<forall>x\<in>set gain. nonneg x"
  proof
    fix x assume "x \<in> set gain"
    then obtain d where d: "d \<in> set (pd_diff prices)"
      and x: "x = (if fgt d (Fin 0) then d else Fin 0)"
      unfolding gain_def delta_def set_map by blast
    show "nonneg x" unfolding x using gain_nonneg[OF d] .
  qed
  have ln: "\<forall>x\<in>set loss. nonneg x"
  proof
    fix x assume "x \<in> set loss"
    then obtain d where d: "d \<in> set (pd_diff prices)"
      and x: "x = fneg (if flt d (Fin 0) then d else Fin 0)"
      unfolding loss_def delta_def set_map by blast
    show "nonneg x" unfolding x using loss_nonneg[OF d] .
  qed
  have al: "0 < 2 / (real n + 1)" "2 / (real n + 1) \<le> 1"
    using assms by auto
  have main: "(i = 0 \<longrightarrow> rsi ! i = NaN) \<and>
        (rsi ! i = NaN \<or> (\<exists>v. rsi ! i = Fin v \<and> 0 \<le> v \<and> v \<le> 100)) \<and>
        (0 < i \<and> prices ! i \<noteq> prices ! (i - 1) \<longrightarrow> rsi ! i \<noteq> NaN)"
    if i: "i < length prices" for i
  proof -
    have nth: "rsi ! i = rsi_of (avg_gain ! i) (avg_loss ! i)"
      using i len by (simp add: rsi_def rsi_of_def)
    have ag: "nonneg (avg_gain ! i)"
      unfolding avg_gain_def using ewm_mean_nonneg[OF assms gn] i len by simp
    have al': "nonneg (avg_loss ! i)"
      unfolding avg_loss_def using ewm_mean_nonneg[OF assms ln] i len by simp
    have first: "rsi ! i = NaN" if "i = 0"
    proof -
      from that i have "delta ! i = NaN"
        by (simp add: delta_def pd_diff_nth)
      with that i len have "avg_gain ! i = Fin 0" "avg_loss ! i = Fin 0"
        by (simp_all add: avg_gain_def avg_loss_def gain_def loss_def ewm_mean_nth fgt_def)
      then show ?thesis by (simp add: nth rsi_of_def fsub_def)
    qed
    have range: "rsi ! i = NaN \<or> (\<exists>v. rsi ! i = Fin v \<and> 0 \<le> v \<and> v \<le> 100)"
      unfolding nth using rsi_of_range[OF ag al'] .
    have moved: "rsi ! i \<noteq> NaN" if pos: "0 < i" and ne: "prices ! i \<noteq> prices ! (i - 1)"
    proof -
      from pos i have d: "delta ! i = Fin (prices ! i - prices ! (i - 1))"
        by (simp add: delta_def pd_diff_nth)
      have prev_g: "nonneg (avg_gain ! (i - 1))"
        unfolding avg_gain_def using ewm_mean_nonneg[OF assms gn, of "i - 1"] i len by simp
      have prev_l: "nonneg (avg_loss ! (i - 1))"
        unfolding avg_loss_def using ewm_mean_nonneg[OF assms ln, of "i - 1"] i len by simp
      have "avg_gain ! i \<noteq> Fin 0 \<or> avg_loss ! i \<noteq> Fin 0"
      proof (cases "prices ! i - prices ! (i - 1) > 0")
        case True
        with d i len have "gain ! i = Fin (prices ! i - prices ! (i - 1))"
          by (simp add: gain_def fgt_def)
        from ewm_step_pos[OF al prev_g this True] pos i len show ?thesis
          by (simp add: avg_gain_def ewm_mean_nth)
      next
        case False
        with ne have neg: "prices ! i - prices ! (i - 1) < 0" by simp
        with d i len have "loss ! i = Fin (- (prices ! i - prices ! (i - 1)))"
          by (simp add: loss_def)
        moreover have "0 < - (prices ! i - prices ! (i - 1))" using neg by simp
        ultimately show ?thesis
          using ewm_step_pos[OF al prev_l, of "loss ! i"] pos i len
          by (simp add: avg_loss_def ewm_mean_nth)
      qed
      then show ?thesis
        unfolding nth using rsi_of_defined[OF ag al'] by blast
    qed
    from first range moved show ?thesis by blast
  qed
  from res len(6) main show ?thesis by blast
qed

text \<open>
  C6, as stated, fails: with period 3 the values at the indices 1 and 2 of a series of five
  prices are 100 and 33.3, not NaN; and with period 1 a constant series of three prices is
  NaN at the indices 1 and 2, not a value of [0, 100].
\<close>

theorem rsi_defined_below_period:
  "calculate_rsi 3 [10, 11, 10, 11, 10] =
     Inr [NaN, Fin 100, Fin (100 / 3), Fin (500 / 7), Fin (100 / 3)] \<and>
   calculate_rsi 1 [5, 5, 5] = Inr [NaN, NaN, NaN]"
  by (simp add: calculate_rsi_def fgt_def fsub_def Let_def)

text \<open>The theorem on the first of these series.\<close>

theorem rsi_range_witness:
  "(1::nat) \<le> 3 \<and>
   (\<exists>rsi. calculate_rsi 3 [10, 11, 10, 11, 10] = Inr rsi \<and> length rsi = 5 \<and>
      rsi ! 0 = NaN \<and> rsi ! 2 \<noteq> NaN \<and>
      (rsi ! 2 = NaN \<or> (\<exists>v. rsi ! 2 = Fin v \<and> 0 \<le> v \<and> v \<le> 100)))"
proof -
  have p: "(1::nat) \<le> 3" by simp
  from rsi_range[OF p, of "[10, 11, 10, 11, 10]"] obtain rsi where
    r: "calculate_rsi 3 [10, 11, 10, 11, 10] = Inr rsi" and
    l: "length rsi = length [10, 11, 10, 11, 10 :: real]" and
    q: "\<forall>i<length [10, 11, 10, 11, 10 :: real].
        (i = 0 \<longrightarrow> rsi ! i = NaN) \<and>
        (rsi ! i = NaN \<or> (\<exists>v. rsi ! i = Fin v \<and> 0 \<le> v \<and> v \<le> 100)) \<and>
        (0 < i \<and> [10, 11, 10, 11, 10 :: real] ! i \<noteq> [10, 11, 10, 11, 10] ! (i - 1) \<longrightarrow> rsi ! i \<noteq> NaN)"
    by blast
  from q[rule_format, of 0] have a: "rsi ! 0 = NaN" by simp
  from q[rule_format, of 2] have b: "rsi ! 2 \<noteq> NaN"
    and c: "rsi ! 2 = NaN \<or> (\<exists>v. rsi ! 2 = Fin v \<and> 0 \<le> v \<and> v \<le> 100)" by auto
  from p r l a b c show ?thesis by auto
qed

section \<open>The order of the trades\<close>

lemma timestamps_increase:
  assumes "sorted_wrt (<) (map timestamp data)" and "a < b" and "b < length data"
  shows "timestamp (data ! a) < timestamp (data ! b)"
  using sorted_wrt_nth_less[OF assms(1), of a b] assms(2,3) by simp

lemma simulate_trade_exit_gt:
  assumes "simulate_trade e prices entry l = Inr (j, pr, r)" and "entry + 1 < length prices"
  shows "entry < j"
proof -
  obtain tp sl where ex: "calculate_exit_price e (prices ! entry) l = (tp, sl)"
    by (cases "calculate_exit_price e (prices ! entry) l") auto
  show ?thesis
  proof (cases "simulate_trade_loop e l tp sl (drop (entry + 1) prices) (entry + 1)")
    case None
    with assms ex show ?thesis
      by (auto simp: simulate_trade_def Let_def)
  next
    case (Some a)
    with assms ex have "a = (j, pr, r)"
      by (auto simp: simulate_trade_def Let_def)
    with Some have "entry + 1 \<le> j"
      using simulate_trade_loop_ge by blast
    then show ?thesis by simp
  qed
qed

lemma loop_inv_skip:
  "loop_inv data i None ts \<Longrightarrow> loop_inv data (i + 1) None ts"
  unfolding loop_inv_def index_bound_def
  by (simp del: ex_simps) (meson less_SucI)

lemma loop_inv_open:
  assumes "loop_inv data i None ts" and "i < length data"
  shows "loop_inv data (i + 1)
           (Some \<lparr>entry_time = timestamp (data ! i), entry_price = p, is_long = l, entry_idx = i\<rparr>) ts"
  using assms by (auto simp: loop_inv_def index_bound_def)

lemma loop_inv_close:
  assumes srt: "sorted_wrt (<) (map timestamp data)"
    and inv: "loop_inv data i (Some ct) ts"
    and i: "i < length data"
    and sim: "simulate_trade e (map price data) (entry_idx ct) (is_long ct) = Inr (j, pr, r)"
  shows "loop_inv data (j + 1) None
           (ts @ [\<lparr>entry_time = entry_time ct, entry_price = entry_price ct,
                   is_long = is_long ct, entry_idx = entry_idx ct,
                   exit_time = timestamp (data ! j), exit_price = xp,
                   profit_pct = pp, exit_reason = r\<rparr>])"
proof -
  from inv have ct: "i = entry_idx ct + 1" "entry_idx ct < length data"
    "entry_time ct = timestamp (data ! entry_idx ct)"
    by (auto simp: loop_inv_def)
  from simulate_trade_exit_bounds[OF sim] have jl: "j < length data" by simp
  from simulate_trade_exit_gt[OF sim] ct(1) i have ej: "entry_idx ct < j" by simp
  have before: "exit_time t < entry_time ct" if "t \<in> set ts" for t
  proof -
    from inv that obtain x where "x < entry_idx ct" "exit_time t = timestamp (data ! x)"
      by (auto simp: loop_inv_def index_bound_def)
    with timestamps_increase[OF srt, of x "entry_idx ct"] ct show ?thesis by simp
  qed
  have len: "entry_time ct < timestamp (data ! j)"
    using timestamps_increase[OF srt ej jl] ct(3) by simp
  have old: "\<exists>x. x < j + 1 \<and> x < length data \<and> exit_time t = timestamp (data ! x)"
    if "t \<in> set ts" for t
  proof -
    from inv that obtain x where "x < entry_idx ct" "x < length data"
      "exit_time t = timestamp (data ! x)"
      by (auto simp: loop_inv_def index_bound_def)
    with ej show ?thesis by (intro exI[of _ x]) simp
  qed
  from inv have "sorted_wrt (\<lambda>t u. exit_time t < entry_time u) ts"
    "\<forall>t\<in>set ts. entry_time t < exit_time t"
    by (auto simp: loop_inv_def)
  with before len old jl show ?thesis
    by (auto simp: loop_inv_def index_bound_def sorted_wrt_append)
qed

lemma backtest_loop_inv:
  assumes "sorted_wrt (<) (map timestamp data)"
    and "backtest_loop e data signals i cur ts = Inr (ts', cur')"
    and "loop_inv data i cur ts"
  shows "\<exists>i'\<ge>length data. loop_inv data i' cur' ts'"
  using assms
proof (induction e data signals i cur ts rule: backtest_loop.induct)
  case (1 e data signals i current_trade trades_list)
  note srt = "1.prems"(1) and out = "1.prems"(2) and inv = "1.prems"(3)
  show ?case
  proof (cases "i < length data")
    case False
    with out inv show ?thesis
      by (auto simp: backtest_loop.simps[of e data signals i] intro!: exI[of _ i])
  next
    case True
    then have sig: "i < length signals"
      using out by (auto simp: backtest_loop.simps[of e data signals i] split: if_splits)
    show ?thesis
    proof (cases current_trade)
      case None
      consider (long) "signals ! i = 1" | (short) "signals ! i \<noteq> 1" "signals ! i = - 1"
        | (hold) "signals ! i \<noteq> 1" "signals ! i \<noteq> - 1" by blast
      then show ?thesis
      proof cases
        case long
        with True sig None out have run: "backtest_loop e data signals (i + 1)
                     (Some \<lparr>entry_time = timestamp (data ! i), entry_price = price (data ! i),
                            is_long = True, entry_idx = i\<rparr>) trades_list = Inr (ts', cur')"
          by (simp add: backtest_loop.simps[of e data signals i])
        from inv None True have "loop_inv data (i + 1)
           (Some \<lparr>entry_time = timestamp (data ! i), entry_price = price (data ! i),
                  is_long = True, entry_idx = i\<rparr>) trades_list"
          using loop_inv_open by blast
        with "1.IH"(1)[OF True _ None long srt run] sig show ?thesis by simp
      next
        case short
        with True sig None out have run: "backtest_loop e data signals (i + 1)
                     (Some \<lparr>entry_time = timestamp (data ! i), entry_price = price (data ! i),
                            is_long = False, entry_idx = i\<rparr>) trades_list = Inr (ts', cur')"
          by (simp add: backtest_loop.simps[of e data signals i])
        from inv None True have "loop_inv data (i + 1)
           (Some \<lparr>entry_time = timestamp (data ! i), entry_price = price (data ! i),
                  is_long = False, entry_idx = i\<rparr>) trades_list"
          using loop_inv_open by blast
        with "1.IH"(2)[OF True _ None short srt run] sig show ?thesis by simp
      next
        case hold
        with True sig None out have run:
          "backtest_loop e data signals (i + 1) None trades_list = Inr (ts', cur')"
          by (simp add: backtest_loop.simps[of e data signals i])
        from inv None have "loop_inv data (i + 1) None trades_list"
          using loop_inv_skip by blast
        with "1.IH"(3)[OF True _ None hold srt run] sig show ?thesis by simp
      qed
    next
      case (Some ct)
      show ?thesis
      proof (cases "simulate_trade e (map price data) (entry_idx ct) (is_long ct)")
        case (Inl a)
        with True sig Some out show ?thesis
          by (simp add: backtest_loop.simps[of e data signals i])
      next
        case (Inr r)
        obtain j pr rs where r: "r = (j, pr, rs)" by (cases r) auto
        let ?t = "\<lparr>entry_time = entry_time ct, entry_price = entry_price ct,
                     is_long = is_long ct, entry_idx = entry_idx ct,
                     exit_time = timestamp (data ! j),
                     exit_price = price (data ! j),
                     profit_pct = fmul pr (Fin 100),
                     exit_reason = rs\<rparr>"
        from True sig Some Inr r out
        have run: "backtest_loop e data signals (j + 1) None (trades_list @ [?t]) = Inr (ts', cur')"
          by (simp add: backtest_loop.simps[of e data signals i])
        have "loop_inv data (j + 1) None (trades_list @ [?t])"
          using loop_inv_close[OF srt _ True] inv Some Inr r by blast
        with "1.IH"(4)[OF True _ Some Inr r[symmetric] _ srt run] sig show ?thesis by simp
      qed
    qed
  qed
qed

lemma close_at_end_fields:
  "entry_time (close_at_end e data ct) = entry_time ct"
  "entry_idx (close_at_end e data ct) = entry_idx ct"
  "exit_time (close_at_end e data ct) = timestamp (last data)"
  "exit_reason (close_at_end e data ct) = Market_close"
  by (simp_all add: close_at_end_def Let_def)

text \<open>
  C3, amended.  On data whose timestamps increase strictly, the trades of a backtest are in
  order and do not overlap: each trade is entered after the exit of the one before.  Each
  trade ends after it begins, but for one case: the last trade, when it was entered at the
  last row, is closed there by the block after the loop, with an exit time equal to its
  entry time.
\<close>

theorem backtest_trades_ordered:
  assumes "sorted_wrt (<) (map timestamp data)"
    and "backtest e generate_signals data = Inr (trades, m)"
  shows "(\<forall>k. Suc k < length trades \<longrightarrow>
            exit_time (trades ! k) < entry_time (trades ! Suc k)) \<and>
         (\<forall>k<length trades.
            entry_time (trades ! k) < exit_time (trades ! k) \<or>
            (Suc k = length trades \<and> entry_time (trades ! k) = exit_time (trades ! k) \<and>
             exit_reason (trades ! k) = Market_close \<and>
             Suc (entry_idx (trades ! k)) = length data))"
proof -
  let ?R = "\<lambda>t u. exit_time t < entry_time u"
  from assms(2) obtain signals ts cur where
    loop: "backtest_loop e data signals 1 None [] = Inr (ts, cur)" and
    tr: "trades = (case cur of None \<Rightarrow> ts | Some ct \<Rightarrow> ts @ [close_at_end e data ct])"
    by (auto simp: backtest_def Let_def split: sum.splits)
  have "loop_inv data 1 None []"
    by (simp add: loop_inv_def)
  from backtest_loop_inv[OF assms(1) loop this] obtain i' where
    i': "length data \<le> i'" and inv: "loop_inv data i' cur ts"
    by blast
  from inv have srt: "sorted_wrt ?R ts" and strict: "\<forall>t\<in>set ts. entry_time t < exit_time t"
    by (auto simp: loop_inv_def)
  have chain: "sorted_wrt ?R trades"
  proof (cases cur)
    case None
    with tr srt show ?thesis by simp
  next
    case (Some ct)
    with inv have ct: "i' = entry_idx ct + 1" "entry_idx ct < length data"
      "entry_time ct = timestamp (data ! entry_idx ct)"
      by (auto simp: loop_inv_def)
    have "exit_time t < entry_time ct" if "t \<in> set ts" for t
    proof -
      from inv that Some obtain x where "x < entry_idx ct" "exit_time t = timestamp (data ! x)"
        by (auto simp: loop_inv_def index_bound_def)
      with timestamps_increase[OF assms(1), of x "entry_idx ct"] ct show ?thesis by simp
    qed
    with srt tr Some show ?thesis
      by (simp add: sorted_wrt_append close_at_end_fields)
  qed
  have consecutive: "exit_time (trades ! k) < entry_time (trades ! Suc k)"
    if "Suc k < length trades" for k
    using sorted_wrt_nth_less[OF chain, of k "Suc k"] that by simp
  have each: "entry_time (trades ! k) < exit_time (trades ! k) \<or>
            (Suc k = length trades \<and> entry_time (trades ! k) = exit_time (trades ! k) \<and>
             exit_reason (trades ! k) = Market_close \<and>
             Suc (entry_idx (trades ! k)) = length data)"
    if k: "k < length trades" for k
  proof (cases "k < length ts")
    case True
    then have "trades ! k = ts ! k"
      using tr by (auto simp: nth_append split: option.splits)
    with True strict show ?thesis by simp
  next
    case False
    with k tr obtain ct where c: "cur = Some ct" and kk: "k = length ts"
      by (auto split: option.splits)
    with inv i' have ct: "Suc (entry_idx ct) = length data"
      "entry_time ct = timestamp (data ! entry_idx ct)"
      by (auto simp: loop_inv_def)
    then have "data \<noteq> []" by auto
    moreover have "entry_idx ct = length data - 1"
      using ct(1) by arith
    ultimately have "last data = data ! entry_idx ct"
      by (simp add: last_conv_nth)
    with c kk tr ct show ?thesis
      by (simp add: close_at_end_fields)
  qed
  from consecutive each show ?thesis by blast
qed

text \<open>
  C3, as stated, fails: a long signal at the last of two rows opens a trade that the block
  after the loop closes at that same row, so its exit time is its entry time.
\<close>

theorem trade_at_last_sample:
  "backtest \<lparr>take_profit = 1/100, stop_loss = - (5/1000), commission = 1/1000\<rparr>
     (\<lambda>d. Inr [0, 1])
     [\<lparr>timestamp = 0, price = 100, low = 100\<rparr>, \<lparr>timestamp = 1, price = 100, low = 100\<rparr>]
   = Inr ([\<lparr>entry_time = 1, entry_price = 100, is_long = True, entry_idx = 1,
            exit_time = 1, exit_price = 100, profit_pct = Fin (- (1 / 5)),
            exit_reason = Market_close\<rparr>],
          \<lparr>total_trades = 1, win_rate = 0, avg_profit = Fin (- (1 / 5)),
           total_profit = Fin (- (1 / 5)), profit_factor = Fin 0, long_trades = 1,
           short_trades = 0, take_profit_exits = 0, stop_loss_exits = 0,
           market_close_exits = 1\<rparr>) \<and>
   \<not> entry_time \<lparr>entry_time = 1, entry_price = 100, is_long = True, entry_idx = 1,
            exit_time = 1, exit_price = 100, profit_pct = Fin (- (1 / 5)),
            exit_reason = Market_close\<rparr>
     < exit_time \<lparr>entry_time = 1, entry_price = 100, is_long = True, entry_idx = 1,
            exit_time = 1, exit_price = 100, profit_pct = Fin (- (1 / 5)),
            exit_reason = Market_close\<rparr>"
  by (simp add: backtest_def backtest_loop.simps close_at_end_def fsub_def
        calculate_performance_metrics_def pd_sum_def pd_mean_def fgt_def Let_def)

text \<open>
  The theorem on six rows with signals at the rows 1, 3 and 5: a trade from row 1 to row 2
  by take-profit, and one from row 3 to the last row.
\<close>

theorem backtest_trades_ordered_witness:
  "sorted_wrt (<) (map timestamp
     [\<lparr>timestamp = 0, price = 100, low = 100\<rparr>, \<lparr>timestamp = 1, price = 100, low = 100\<rparr>,
      \<lparr>timestamp = 2, price = 101, low = 101\<rparr>, \<lparr>timestamp = 3, price = 100, low = 100\<rparr>,
      \<lparr>timestamp = 4, price = 100, low = 100\<rparr>, \<lparr>timestamp = 5, price = 100, low = 100\<rparr>]) \<and>
   (\<exists>t u m.
      backtest \<lparr>take_profit = 1/100, stop_loss = - (5/1000), commission = 1/1000\<rparr>
        (\<lambda>d. Inr [0, 1, 0, 1, 0, 1])
        [\<lparr>timestamp = 0, price = 100, low = 100\<rparr>, \<lparr>timestamp = 1, price = 100, low = 100\<rparr>,
         \<lparr>timestamp = 2, price = 101, low = 101\<rparr>, \<lparr>timestamp = 3, price = 100, low = 100\<rparr>,
         \<lparr>timestamp = 4, price = 100, low = 100\<rparr>, \<lparr>timestamp = 5, price = 100, low = 100\<rparr>]
        = Inr ([t, u], m) \<and>
      entry_time t = 1 \<and> exit_time t = 2 \<and> entry_time u = 3 \<and> exit_time u = 5 \<and>
      exit_time t < entry_time u \<and> entry_time t < exit_time t \<and> entry_time u < exit_time u)"
proof -
  let ?e = "\<lparr>take_profit = 1/100, stop_loss = - (5/1000), commission = 1/1000\<rparr>"
  let ?g = "\<lambda>d::row list. Inr [0, 1, 0, 1, 0, 1] :: error + int list"
  let ?d = "[\<lparr>timestamp = 0, price = 100, low = 100\<rparr>, \<lparr>timestamp = 1, price = 100, low = 100\<rparr>,
      \<lparr>timestamp = 2, price = 101, low = 101\<rparr>, \<lparr>timestamp = 3, price = 100, low = 100\<rparr>,
      \<lparr>timestamp = 4, price = 100, low = 100\<rparr>, \<lparr>timestamp = 5, price = 100, low = 100\<rparr>]"
  let ?t = "\<lparr>entry_time = 1, entry_price = 100, is_long = True, entry_idx = 1,
            exit_time = 2, exit_price = 101, profit_pct = Fin (4 / 5),
            exit_reason = Take_profit\<rparr>"
  let ?u = "\<lparr>entry_time = 3, entry_price = 100, is_long = True, entry_idx = 3,
            exit_time = 5, exit_price = 100, profit_pct = Fin (- (1 / 5)),
            exit_reason = Market_close\<rparr>"
  have s: "sorted_wrt (<) (map timestamp ?d)" by simp
  have "\<exists>m. backtest ?e ?g ?d = Inr ([?t, ?u], m)"
    by (simp add: backtest_def backtest_loop.simps simulate_trade_def calculate_exit_price_def
          fsub_def Let_def)
  then obtain m where run: "backtest ?e ?g ?d = Inr ([?t, ?u], m)" by blast
  from backtest_trades_ordered[OF s run]
  have "exit_time ?t < entry_time ?u" "entry_time ?t < exit_time ?t" "entry_time ?u < exit_time ?u"
    by (auto simp: less_Suc_eq)
  with s run show ?thesis by (intro conjI exI[of _ ?t] exI[of _ ?u] exI[of _ m]) simp_all
qed

section \<open>Streaming against batch\<close>

lemma last_n_snoc:
  "last_n 10 (xs @ [x]) =
     (if length (last_n 10 xs @ [x]) > 10 then tl (last_n 10 xs @ [x]) else last_n 10 xs @ [x])"
proof (cases "length xs < 10")
  case True
  then show ?thesis by (simp add: last_n_def)
next
  case False
  then have ne: "drop (length xs - 10) xs \<noteq> []" by simp
  have "tl (drop (length xs - 10) xs @ [x]) = drop (Suc (length xs - 10)) xs @ [x]"
    using ne by (simp add: drop_Suc tl_drop)
  moreover have "Suc (length xs) - 10 = Suc (length xs - 10)"
    using False by simp
  ultimately show ?thesis
    using False by (simp add: last_n_def)
qed

lemma update_rsi_state_fields:
  "oversold_threshold (update_rsi_state p r df) = oversold_threshold p"
  "overbought_threshold (update_rsi_state p r df) = overbought_threshold p"
  "last_rsi_values (update_rsi_state p r df) =
     (if length (last_rsi_values p @ [r]) > 10 then tl (last_rsi_values p @ [r])
      else last_rsi_values p @ [r])"
  by (simp_all add: update_rsi_state_def Let_def)

lemma feed_thresholds:
  "oversold_threshold (feed p rsi data n) = oversold_threshold p"
  by (induction n) (simp_all add: update_rsi_state_fields)

lemma feed_last_rsi_values:
  assumes "last_rsi_values p = []" and "n \<le> length rsi"
  shows "last_rsi_values (feed p rsi data n) = last_n 10 (take n rsi)"
  using assms(2)
proof (induction n)
  case 0
  with assms(1) show ?case by (simp add: last_n_def)
next
  case (Suc n)
  then have "take (Suc n) rsi = take n rsi @ [rsi ! n]"
    by (simp add: take_Suc_conv_app_nth)
  with Suc show ?case
    by (simp add: update_rsi_state_fields last_n_snoc)
qed

lemma last_n_from_end:
  assumes "k \<le> n" "k \<le> length xs" "0 < k"
  shows "from_end (last_n n xs) k = xs ! (length xs - k)"
  using assms by (simp add: from_end_def last_n_def)

text \<open>
  C2, amended.  Fed the oscillator values of the batch series one at a time, from a new
  session, the cover check of the panel is true at an index after the first exactly when
  the batch generator has the signal \<open>+1\<close> there.
\<close>

theorem streaming_cover_agrees:
  assumes "dc_generate_signals a data = Inr signals"
    and "calculate_rsi (period a) (map price data) = Inr rsi"
    and "0 < i" and "i < length data"
  shows "check_cover_signal (feed (init_panel a) rsi data (Suc i)) (rsi ! i)
         \<longleftrightarrow> signals ! i = 1"
proof -
  from assms(2) have len: "length rsi = length data"
    using calculate_rsi_length by fastforce
  let ?s = "feed (init_panel a) rsi data (Suc i)"
  have vals: "last_rsi_values ?s = last_n 10 (take (Suc i) rsi)"
    using feed_last_rsi_values[of "init_panel a" "Suc i" rsi data] assms(4) len
    by (simp add: init_panel_def del: feed.simps)
  have lv: "length (last_rsi_values ?s) \<ge> 2"
    unfolding vals using assms(3,4) len by (simp add: last_n_def)
  have prev: "from_end (last_rsi_values ?s) 2 = rsi ! (i - 1)"
    unfolding vals using last_n_from_end[of 2 10 "take (Suc i) rsi"] assms(3,4) len
    by simp
  have os: "oversold_threshold ?s = oversold_threshold a"
    by (simp add: feed_thresholds init_panel_def del: feed.simps)
  have stream: "check_cover_signal ?s (rsi ! i) \<longleftrightarrow>
      fle (rsi ! i) (Fin (oversold_threshold a)) \<and> fgt (rsi ! (i - 1)) (Fin (oversold_threshold a))"
    using lv by (simp add: check_cover_signal_def prev os del: feed.simps)
  have "signals ! i = dc_signal_at a rsi (map price data) i"
    using assms by (auto simp: dc_generate_signals_def)
  then have batch: "signals ! i = 1 \<longleftrightarrow> cover_condition a rsi i"
    by (simp add: dc_signal_at_def)
  have "shift1 rsi ! i = rsi ! (i - 1)"
    using assms(3,4) len by (simp add: shift1_nth)
  with stream batch show ?thesis
    by (simp add: cover_condition_def)
qed

text \<open>
  Twelve prices with period 4, oversold threshold 30 and overbought threshold 70: the
  oscillator and the batch signals, a cover at index 6 and a short at index 11.
\<close>

lemma rsi_twelve:
  "calculate_rsi 4 [100, 99, 94, 96, 99, 96, 93, 98, 93, 94, 97, 92] =
     Inr [NaN, Fin 0, Fin 0, Fin (2500 / 67), Fin (2500 / 37), Fin (26250 / 701),
          Fin (157500 / 7331), Fin (1153750 / 18013), Fin (27690000 / 822937),
          Fin (30533125 / 714859), Fin (105815000 / 1604187), Fin (1428502500 / 46070587)]"
  by (simp add: calculate_rsi_def fgt_def fsub_def Let_def)

lemma signals_twelve:
  "dc_generate_signals \<lparr>period = 4, oversold_threshold = 30, overbought_threshold = 70\<rparr>
     (rows [100, 99, 94, 96, 99, 96, 93, 98, 93, 94, 97, 92])
     = Inr [0, 0, 0, 0, 0, 0, 1, 0, 0, 0, 0, - 1]"
proof -
  have idx: "[0..<12] = [0, 1, 2, 3, 4, 5, 6, 7, 8, 9, 10, 11 :: nat]"
    by (simp add: eval_nat_numeral upt_rec)
  show ?thesis
    using rsi_twelve
    by (simp add: dc_generate_signals_def price_rows length_rows idx
          dc_signal_at_def cover_condition_def short_condition_def shift1_def
          rsi_topped_at_def support_levels_at_def window_def pd_max_def fmax_def
          fge_def fgt_def Let_def)
qed

text \<open>
  C2, as stated, fails on these twelve prices, fed with the low of each candle equal to its
  price: at index 11 the batch signal is \<open>-1\<close> and the signal of the panel is 0; at index 6
  the batch generator is not topped and the panel is; at index 11 the batch support is 93,
  the lowest of the ten prices before, and the support of the panel is 92, the lowest of
  the last ten lows with that of the current candle.
\<close>

theorem streaming_differs_from_batch:
  "calculate_rsi 4 [100, 99, 94, 96, 99, 96, 93, 98, 93, 94, 97, 92] =
     Inr [NaN, Fin 0, Fin 0, Fin (2500 / 67), Fin (2500 / 37), Fin (26250 / 701),
          Fin (157500 / 7331), Fin (1153750 / 18013), Fin (27690000 / 822937),
          Fin (30533125 / 714859), Fin (105815000 / 1604187), Fin (1428502500 / 46070587)] \<and>
   dc_generate_signals \<lparr>period = 4, oversold_threshold = 30, overbought_threshold = 70\<rparr>
     (rows [100, 99, 94, 96, 99, 96, 93, 98, 93, 94, 97, 92])
     = Inr [0, 0, 0, 0, 0, 0, 1, 0, 0, 0, 0, - 1] \<and>
   current_signal
     (feed (init_panel \<lparr>period = 4, oversold_threshold = 30, overbought_threshold = 70\<rparr>)
        [NaN, Fin 0, Fin 0, Fin (2500 / 67), Fin (2500 / 37), Fin (26250 / 701),
         Fin (157500 / 7331), Fin (1153750 / 18013), Fin (27690000 / 822937),
         Fin (30533125 / 714859), Fin (105815000 / 1604187), Fin (1428502500 / 46070587)]
        (rows [100, 99, 94, 96, 99, 96, 93, 98, 93, 94, 97, 92]) 12)
     (Fin (1428502500 / 46070587)) 92 = 0 \<and>
   \<not> rsi_topped_at \<lparr>period = 4, oversold_threshold = 30, overbought_threshold = 70\<rparr>
     [NaN, Fin 0, Fin 0, Fin (2500 / 67), Fin (2500 / 37), Fin (26250 / 701),
      Fin (157500 / 7331), Fin (1153750 / 18013), Fin (27690000 / 822937),
      Fin (30533125 / 714859), Fin (105815000 / 1604187), Fin (1428502500 / 46070587)] 6 \<and>
   rsi_topped
     (feed (init_panel \<lparr>period = 4, oversold_threshold = 30, overbought_threshold = 70\<rparr>)
        [NaN, Fin 0, Fin 0, Fin (2500 / 67), Fin (2500 / 37), Fin (26250 / 701),
         Fin (157500 / 7331), Fin (1153750 / 18013), Fin (27690000 / 822937),
         Fin (30533125 / 714859), Fin (105815000 / 1604187), Fin (1428502500 / 46070587)]
        (rows [100, 99, 94, 96, 99, 96, 93, 98, 93, 94, 97, 92]) 7) \<and>
   support_levels_at [100, 99, 94, 96, 99, 96, 93, 98, 93, 94, 97, 92] 11 = Fin 93 \<and>
   support_level
     (feed (init_panel \<lparr>period = 4, oversold_threshold = 30, overbought_threshold = 70\<rparr>)
        [NaN, Fin 0, Fin 0, Fin (2500 / 67), Fin (2500 / 37), Fin (26250 / 701),
         Fin (157500 / 7331), Fin (1153750 / 18013), Fin (27690000 / 822937),
         Fin (30533125 / 714859), Fin (105815000 / 1604187), Fin (1428502500 / 46070587)]
        (rows [100, 99, 94, 96, 99, 96, 93, 98, 93, 94, 97, 92]) 12) = Some 92"
proof -
  let ?a = "\<lparr>period = 4, oversold_threshold = 30, overbought_threshold = 70\<rparr>"
  let ?ps = "[100, 99, 94, 96, 99, 96, 93, 98, 93, 94, 97, 92] :: real list"
  let ?r = "[NaN, Fin 0, Fin 0, Fin (2500 / 67), Fin (2500 / 37), Fin (26250 / 701),
          Fin (157500 / 7331), Fin (1153750 / 18013), Fin (27690000 / 822937),
          Fin (30533125 / 714859), Fin (105815000 / 1604187), Fin (1428502500 / 46070587)]"
  have r: "calculate_rsi 4 ?ps = Inr ?r"
    by (rule rsi_twelve)
  have sup: "support_levels_at ?ps 11 = Fin 93" "support_levels_at ?ps 10 = Fin 93"
    by (simp_all add: support_levels_at_def window_def)
  have sig: "dc_generate_signals ?a (rows ?ps) = Inr [0, 0, 0, 0, 0, 0, 1, 0, 0, 0, 0, - 1]"
    by (rule signals_twelve)
  have s7: "rsi_topped (feed (init_panel ?a) ?r (rows ?ps) 7)"
    by (simp add: eval_nat_numeral rows_def init_panel_def update_rsi_state_def last_n_def
          from_end_def fge_def fgt_def Let_def)
  have s12: "support_level (feed (init_panel ?a) ?r (rows ?ps) 12) = Some 92"
    "rsi_topped (feed (init_panel ?a) ?r (rows ?ps) 12)"
    "last_rsi_values (feed (init_panel ?a) ?r (rows ?ps) 12) = drop 2 ?r"
    "oversold_threshold (feed (init_panel ?a) ?r (rows ?ps) 12) = 30"
    by (simp_all add: eval_nat_numeral rows_def init_panel_def update_rsi_state_def last_n_def
          from_end_def fge_def fgt_def Let_def)
  have cs: "current_signal (feed (init_panel ?a) ?r (rows ?ps) 12) (Fin (1428502500 / 46070587)) 92 = 0"
    by (simp add: current_signal_def check_short_signal_def check_cover_signal_def s12
          from_end_def fge_def fgt_def Let_def del: feed.simps)
  have t6: "\<not> rsi_topped_at ?a ?r 6"
    by (simp add: rsi_topped_at_def window_def pd_max_def fmax_def fge_def fgt_def Let_def)
  from r sig cs t6 s7 sup(1) s12(1) show ?thesis by blast
qed

text \<open>
  The theorem on the same prices: the cover check holds after seven points, where the batch
  signal is \<open>+1\<close>, and fails after twelve, where it is \<open>-1\<close>.
\<close>

theorem streaming_cover_agrees_witness:
  "dc_generate_signals \<lparr>period = 4, oversold_threshold = 30, overbought_threshold = 70\<rparr>
     (rows [100, 99, 94, 96, 99, 96, 93, 98, 93, 94, 97, 92])
     = Inr [0, 0, 0, 0, 0, 0, 1, 0, 0, 0, 0, - 1] \<and>
   calculate_rsi 4 [100, 99, 94, 96, 99, 96, 93, 98, 93, 94, 97, 92] =
     Inr [NaN, Fin 0, Fin 0, Fin (2500 / 67), Fin (2500 / 37), Fin (26250 / 701),
          Fin (157500 / 7331), Fin (1153750 / 18013), Fin (27690000 / 822937),
          Fin (30533125 / 714859), Fin (105815000 / 1604187), Fin (1428502500 / 46070587)] \<and>
   (0::nat) < 6 \<and> 6 < length (rows [100, 99, 94, 96, 99, 96, 93, 98, 93, 94, 97, 92]) \<and>
   check_cover_signal
     (feed (init_panel \<lparr>period = 4, oversold_threshold = 30, overbought_threshold = 70\<rparr>)
        [NaN, Fin 0, Fin 0, Fin (2500 / 67), Fin (2500 / 37), Fin (26250 / 701),
         Fin (157500 / 7331), Fin (1153750 / 18013), Fin (27690000 / 822937),
         Fin (30533125 / 714859), Fin (105815000 / 1604187), Fin (1428502500 / 46070587)]
        (rows [100, 99, 94, 96, 99, 96, 93, 98, 93, 94, 97, 92]) 7)
     (Fin (157500 / 7331)) \<and>
   \<not> check_cover_signal
     (feed (init_panel \<lparr>period = 4, oversold_threshold = 30, overbought_threshold = 70\<rparr>)
        [NaN, Fin 0, Fin 0, Fin (2500 / 67), Fin (2500 / 37), Fin (26250 / 701),
         Fin (157500 / 7331), Fin (1153750 / 18013), Fin (27690000 / 822937),
         Fin (30533125 / 714859), Fin (105815000 / 1604187), Fin (1428502500 / 46070587)]
        (rows [100, 99, 94, 96, 99, 96, 93, 98, 93, 94, 97, 92]) 12)
     (Fin (1428502500 / 46070587))"
proof -
  let ?a = "\<lparr>period = 4, oversold_threshold = 30, overbought_threshold = 70\<rparr>"
  let ?ps = "[100, 99, 94, 96, 99, 96, 93, 98, 93, 94, 97, 92] :: real list"
  let ?r = "[NaN, Fin 0, Fin 0, Fin (2500 / 67), Fin (2500 / 37), Fin (26250 / 701),
          Fin (157500 / 7331), Fin (1153750 / 18013), Fin (27690000 / 822937),
          Fin (30533125 / 714859), Fin (105815000 / 1604187), Fin (1428502500 / 46070587)]"
  let ?s = "[0, 0, 0, 0, 0, 0, 1, 0, 0, 0, 0, - 1] :: int list"
  have g: "dc_generate_signals ?a (rows ?ps) = Inr ?s"
    by (rule signals_twelve)
  have r: "calculate_rsi (period ?a) (map price (rows ?ps)) = Inr ?r"
    using rsi_twelve by (simp add: price_rows)
  have l: "6 < length (rows ?ps)" "11 < length (rows ?ps)"
    by (simp_all add: length_rows)
  have "check_cover_signal (feed (init_panel ?a) ?r (rows ?ps) (Suc 6)) (?r ! 6) \<longleftrightarrow> ?s ! 6 = 1"
    using streaming_cover_agrees[OF g r _ l(1)] by simp
  then have c6: "check_cover_signal (feed (init_panel ?a) ?r (rows ?ps) 7) (Fin (157500 / 7331))"
    by (simp del: feed.simps)
  have "check_cover_signal (feed (init_panel ?a) ?r (rows ?ps) (Suc 11)) (?r ! 11) \<longleftrightarrow> ?s ! 11 = 1"
    using streaming_cover_agrees[OF g r _ l(2)] by simp
  then have c11: "\<not> check_cover_signal (feed (init_panel ?a) ?r (rows ?ps) 12)
      (Fin (1428502500 / 46070587))"
    by (simp del: feed.simps)
  from g rsi_twelve l(1) c6 c11 show ?thesis by simp
qed

text \<open>
  Why the panel shows no short at index 11: its support is the lowest of the last ten lows,
  the current candle included, so a price at or above the low of its own candle is never
  below it.
\<close>

lemma min_list_le:
  fixes x :: real
  assumes "x \<in> set xs"
  shows "min_list xs \<le> x"
proof -
  from assms have "xs \<noteq> []" by auto
  then have "min_list xs = Min (set xs)" by (rule min_list_Min)
  with assms show ?thesis by simp
qed

lemma check_short_signal_own_candle:
  assumes "10 \<le> length df" and "low (last df) \<le> current_price"
  shows "\<not> check_short_signal (update_rsi_state p r df) r' current_price"
proof -
  from assms(1) have ne: "df \<noteq> []" by auto
  have sup: "support_level (update_rsi_state p r df) = Some (min_list (map low (last_n 10 df)))"
    using assms(1) by (simp add: update_rsi_state_def Let_def)
  have "last df \<in> set (last_n 10 df)"
    using ne by (metis last_n_def diff_less last_drop last_in_set length_greater_0_conv
        drop_eq_Nil not_le zero_less_numeral)
  then have "min_list (map low (last_n 10 df)) \<le> low (last df)"
    by (intro min_list_le) simp
  with assms(2) sup show ?thesis
    by (simp add: check_short_signal_def)
qed

text \<open>
  The oscillator at an index reads the prices up to that index only: computed on the first
  \<open>k\<close> prices it is the first \<open>k\<close> values of the oscillator of the whole series.  So the
  values fed to the panel above are those it would compute itself on the candles seen.
\<close>

lemma diff_from_take: "diff_from p (take k ps) = take k (diff_from p ps)"
  by (induction ps arbitrary: k p) (auto simp: take_Cons split: nat.splits)

lemma pd_diff_take: "pd_diff (take k ps) = take k (pd_diff ps)"
  by (cases ps; cases k) (auto simp: diff_from_take)

lemma ewm_from_take: "ewm_from alpha y (take k xs) = take k (ewm_from alpha y xs)"
  by (induction xs arbitrary: k y) (auto simp: take_Cons Let_def split: nat.splits)

lemma ewm_mean_take: "ewm_mean n (take k xs) = take k (ewm_mean n xs)"
  by (cases xs; cases k) (auto simp: ewm_from_take)

lemma calculate_rsi_take:
  assumes "calculate_rsi n prices = Inr rsi"
  shows "calculate_rsi n (take k prices) = Inr (take k rsi)"
  using assms
  by (auto simp: calculate_rsi_def Let_def pd_diff_take ewm_mean_take[symmetric] take_map
           take_zip split: if_splits)

end
